theory Spec2Isabelle
  imports Complex_Main "HOL-Library.Word" "HOL-Library.AList" "HOL-Library.Char_ord"
begin

section \<open>The host platform, as far as the mixer uses it\<close>

text \<open>
  The mixer of \<^verbatim>\<open>src/index.ts\<close> is a thin layer over the browser's audio graph. The
  graph is not code of the repository; it is modelled here by the few facts the mixer
  relies on: an audio context hands out fresh nodes, \<^verbatim>\<open>connect\<close> adds a connection,
  \<^verbatim>\<open>disconnect(destination)\<close> removes one and raises \<^verbatim>\<open>InvalidAccessError\<close> when there
  is none, a gain node carries a gain value (1 when created), and \<^verbatim>\<open>close()\<close> settles
  its promise once: fulfilled for an open context, rejected for a closed one. Creating a
  node is taken to succeed (the streams the mixer hands to \<^verbatim>\<open>createMediaStreamSource\<close>
  carry an audio track).
  A JavaScript number is a double: a finite value, \<^verbatim>\<open>NaN\<close> or an infinity. Finite values
  are reals, and the two steps of \<^verbatim>\<open>setTrackVolume\<close> that round are written out: the
  division rounds to the nearest double, the gain parameter's \<^verbatim>\<open>value\<close> setter to the
  nearest single-precision float and raises \<^verbatim>\<open>TypeError\<close> for a value that is not finite
  or lies beyond the single-precision range. The volume meter divides an integer of at
  most 128 by 128 and multiplies by 100, which is exact in doubles. Objects the caller
  shares with the mixer (the tracks) live in a store, addressed by reference.
\<close>

type_synonym node = nat
type_synonym track_ref = nat

text \<open>A \<^verbatim>\<open>MediaStream\<close> is the list of the tracks it holds.\<close>

type_synonym MediaStream = "track_ref list"

record MediaStreamTrack =
  id' :: string
  kind :: string
  enabled :: bool

datatype exn = Error string | InvalidAccessError | TypeError

datatype 'a outcome = Threw exn | Returned 'a

text \<open>The settlement of the promise that \<^verbatim>\<open>AudioContext.close()\<close> returns.\<close>

datatype completion = Resolved | Rejected

datatype AudioContextState = Suspended | Running | Interrupted | Closed

record AudioContext =
  nextNode :: node
  edges :: "(node \<times> node) set"
  gain :: "node \<rightharpoonup> real"
  ctxState :: AudioContextState

text \<open>
  What lives outside any one mixer: the track objects, the number of audio contexts that
  were created and not closed, and the console.
\<close>

record platform =
  tracks :: "track_ref \<Rightarrow> MediaStreamTrack"
  liveContexts :: nat
  console :: "string list"

definition newAudioContext :: "platform \<Rightarrow> AudioContext \<times> platform" where
  "newAudioContext p =
     (\<lparr>nextNode = 0, edges = {}, gain = Map.empty, ctxState = Suspended\<rparr>,
      p\<lparr>liveContexts := Suc (liveContexts p)\<rparr>)"

definition createNode :: "AudioContext \<Rightarrow> node \<times> AudioContext" where
  "createNode ctx = (nextNode ctx, ctx\<lparr>nextNode := Suc (nextNode ctx)\<rparr>)"

definition createMediaStreamDestination :: "AudioContext \<Rightarrow> node \<times> AudioContext" where
  "createMediaStreamDestination ctx = createNode ctx"

definition createMediaStreamSource :: "AudioContext \<Rightarrow> MediaStream \<Rightarrow> node \<times> AudioContext" where
  "createMediaStreamSource ctx stream = createNode ctx"

definition createAnalyser :: "AudioContext \<Rightarrow> node \<times> AudioContext" where
  "createAnalyser ctx = createNode ctx"

definition createGain :: "AudioContext \<Rightarrow> node \<times> AudioContext" where
  "createGain ctx =
     (nextNode ctx, ctx\<lparr>nextNode := Suc (nextNode ctx), gain := (gain ctx)(nextNode ctx \<mapsto> 1)\<rparr>)"

definition connect :: "node \<Rightarrow> node \<Rightarrow> AudioContext \<Rightarrow> AudioContext" where
  "connect a b ctx = ctx\<lparr>edges := insert (a, b) (edges ctx)\<rparr>"

definition disconnect :: "node \<Rightarrow> node \<Rightarrow> AudioContext \<Rightarrow> unit outcome \<times> AudioContext" where
  "disconnect a b ctx =
     (if (a, b) \<in> edges ctx then (Returned (), ctx\<lparr>edges := edges ctx - {(a, b)}\<rparr>)
      else (Threw InvalidAccessError, ctx))"

definition close :: "AudioContext \<Rightarrow> platform \<Rightarrow> completion \<times> AudioContext \<times> platform" where
  "close ctx p =
     (if ctxState ctx = Closed then (Rejected, ctx, p)
      else (Resolved, ctx\<lparr>ctxState := Closed\<rparr>, p\<lparr>liveContexts := liveContexts p - 1\<rparr>))"

text \<open>
  \<^verbatim>\<open>resume()\<close> is a request: \<open>granted\<close> says whether the platform honours it.
\<close>

definition resume :: "bool \<Rightarrow> AudioContext \<Rightarrow> AudioContext" where
  "resume granted ctx =
     (if granted \<and> ctxState ctx \<noteq> Closed then ctx\<lparr>ctxState := Running\<rparr> else ctx)"

subsection \<open>Numbers: doubles, and the single-precision gain parameter\<close>

text \<open>
  Rounding to the nearest value with \<open>prec\<close> significant bits, ties to the even
  significand; below \<open>2 powi emin\<close> the spacing stays that of the smallest normal
  binade (subnormal numbers). The two zeros are identified.
\<close>

datatype number = Num real | NaN | Infinity | NegInfinity

definition round_half_even :: "real \<Rightarrow> int" where
  "round_half_even y =
     (let f = \<lfloor>y\<rfloor> in
      if y - of_int f < 1 / 2 then f
      else if 1 / 2 < y - of_int f then f + 1
      else if even f then f else f + 1)"

definition quantum :: "int \<Rightarrow> int \<Rightarrow> real \<Rightarrow> real" where
  "quantum prec emin x = 2 powi (max emin \<lfloor>log 2 \<bar>x\<bar>\<rfloor> - (prec - 1))"

definition nearest :: "int \<Rightarrow> int \<Rightarrow> real \<Rightarrow> real" where
  "nearest prec emin x =
     (if x = 0 then 0
      else of_int (round_half_even (x / quantum prec emin x)) * quantum prec emin x)"

text \<open>The result of an arithmetic operation whose exact value is \<open>x\<close>, as a double.\<close>

definition to_double :: "real \<Rightarrow> number" where
  "to_double x =
     (let y = nearest 53 (- 1022) x in
      if 2 ^ 1024 \<le> y then Infinity
      else if y \<le> - (2 ^ 1024) then NegInfinity
      else Num y)"

text \<open>\<^verbatim>\<open>a / d\<close> for a finite divisor \<open>d > 0\<close> (here always 100).\<close>

definition js_divide :: "number \<Rightarrow> real \<Rightarrow> number" where
  "js_divide a d =
     (case a of
        Num x \<Rightarrow> to_double (x / d)
      | NaN \<Rightarrow> NaN
      | Infinity \<Rightarrow> Infinity
      | NegInfinity \<Rightarrow> NegInfinity)"

text \<open>
  The conversion of a number to the 32-bit float an \<^verbatim>\<open>AudioParam\<close> holds; \<open>None\<close> is
  the \<^verbatim>\<open>TypeError\<close> of a value that is not finite or rounds beyond the largest float.
\<close>

definition to_float :: "number \<Rightarrow> real option" where
  "to_float v =
     (case v of
        Num x \<Rightarrow> (let y = nearest 24 (- 126) x in if 2 ^ 128 \<le> \<bar>y\<bar> then None else Some y)
      | NaN \<Rightarrow> None
      | Infinity \<Rightarrow> None
      | NegInfinity \<Rightarrow> None)"

text \<open>The setter of \<^verbatim>\<open>gainNode.gain.value\<close>.\<close>

definition set_gain_value :: "node \<Rightarrow> number \<Rightarrow> AudioContext \<Rightarrow> unit outcome \<times> AudioContext" where
  "set_gain_value g v ctx =
     (case to_float v of
        None \<Rightarrow> (Threw TypeError, ctx)
      | Some y \<Rightarrow> (Returned (), ctx\<lparr>gain := (gain ctx)(g \<mapsto> y)\<rparr>))"

definition getAudioTracks :: "platform \<Rightarrow> MediaStream \<Rightarrow> track_ref list" where
  "getAudioTracks p stream = filter (\<lambda>t. kind (tracks p t) = ''audio'') stream"

text \<open>
  \<^verbatim>\<open>analyser.getByteTimeDomainData(array)\<close> copies the current waveform into the array:
  samples beyond the array's length are dropped, array elements beyond the waveform are
  left as they were.
\<close>

definition getByteTimeDomainData :: "8 word list \<Rightarrow> 8 word list \<Rightarrow> 8 word list" where
  "getByteTimeDomainData wave array = take (length array) wave @ drop (length wave) array"

subsection \<open>The JavaScript \<^verbatim>\<open>Map\<close>: unique keys, in insertion order\<close>

definition Map_get :: "('k \<times> 'v) list \<Rightarrow> 'k \<Rightarrow> 'v option" where
  "Map_get xs k = map_of xs k"

definition Map_set :: "('k \<times> 'v) list \<Rightarrow> 'k \<Rightarrow> 'v \<Rightarrow> ('k \<times> 'v) list" where
  "Map_set xs k v = AList.update k v xs"

definition Map_delete :: "('k \<times> 'v) list \<Rightarrow> 'k \<Rightarrow> ('k \<times> 'v) list" where
  "Map_delete xs k = AList.delete k xs"

section \<open>The mixer: \<^verbatim>\<open>src/index.ts\<close>\<close>

record TrackCache =
  track :: track_ref
  mediaStream :: MediaStream
  sourceNode :: node
  gainNode :: node

record MediaStreamAudioDestinationNode =
  node_id :: node
  stream :: MediaStream

definition BASE :: int where
  "BASE = 128"

record AudioTrackMixer =
  audioContext :: AudioContext
  destinationNode :: MediaStreamAudioDestinationNode
  caches :: "(string \<times> TrackCache) list"
  analyserSourceNode :: node
  analyser :: "node option"
  timeDomainData :: "8 word list"

text \<open>
  What the constructor finds in the page: whether one of the (prefixed) audio-context
  classes exists, whether a context offers \<^verbatim>\<open>createMediaStreamDestination\<close>, the stream
  a destination node carries and the analyser's \<^verbatim>\<open>frequencyBinCount\<close>.
\<close>

record window =
  AudioContextClass :: bool
  has_createMediaStreamDestination :: bool
  destinationStream :: MediaStream
  frequencyBinCount :: nat

definition constructor :: "window \<Rightarrow> platform \<Rightarrow> AudioTrackMixer outcome \<times> platform" where
  "constructor w p =
     (if \<not> AudioContextClass w
      then (Threw (Error ''the environment doesnot support to mix audio track''), p)
      else
        let (ctx0, p1) = newAudioContext p in
        if \<not> has_createMediaStreamDestination w
        then (Threw (Error ''the environment doesnot support to mix audio track''), p1)
        else
          let (dest, ctx1) = createMediaStreamDestination ctx0;
              outStream = destinationStream w;
              (asrc, ctx2) = createMediaStreamSource ctx1 outStream;
              (an, ctx3) = createAnalyser ctx2;
              buf = replicate (frequencyBinCount w) 0;
              ctx4 = connect asrc an ctx3
          in (Returned \<lparr>audioContext = ctx4,
                         destinationNode = \<lparr>node_id = dest, stream = outStream\<rparr>,
                         caches = [],
                         analyserSourceNode = asrc,
                         analyser = Some an,
                         timeDomainData = buf\<rparr>, p1))"

text \<open>
  The observer the constructor installs as \<^verbatim>\<open>onstatechange\<close>: the platform calls it after
  it has changed the context's state.
\<close>

definition onstatechange :: "bool \<Rightarrow> AudioTrackMixer \<Rightarrow> AudioTrackMixer" where
  "onstatechange granted m =
     (if ctxState (audioContext m) = Interrupted
      then m\<lparr>audioContext := resume granted (audioContext m)\<rparr>
      else m)"

text \<open>
  Every method takes the mixer and the platform and gives back what it returned or threw,
  with the mixer and the platform as it left them. A method that returns \<^verbatim>\<open>this\<close>
  returns the mixer as it is on return.
\<close>

definition addTrack ::
  "track_ref \<Rightarrow> AudioTrackMixer \<Rightarrow> platform \<Rightarrow> AudioTrackMixer outcome \<times> AudioTrackMixer \<times> platform" where
  "addTrack t m p =
     (let tr = tracks p t in
      if kind tr = [] \<or> kind tr \<noteq> ''audio''
      then (Threw (Error ''not an audio track''), m, p)
      else
        case Map_get (caches m) (id' tr) of
          Some cache \<Rightarrow>
            (Threw (Error (''audio track (id: '' @ id' tr @ '') has already been added'')), m, p)
        | None \<Rightarrow>
            let ms = [t];
                (src, ctx1) = createMediaStreamSource (audioContext m) ms;
                (g, ctx2) = createGain ctx1;
                ctx3 = connect src g ctx2;
                ctx4 = connect g (node_id (destinationNode m)) ctx3;
                m' = m\<lparr>audioContext := ctx4,
                       caches := Map_set (caches m) (id' tr)
                         \<lparr>track = t, mediaStream = ms, sourceNode = src, gainNode = g\<rparr>\<rparr>
            in (Returned m', m', p))"

definition removeTrack ::
  "track_ref \<Rightarrow> AudioTrackMixer \<Rightarrow> platform \<Rightarrow> AudioTrackMixer outcome \<times> AudioTrackMixer \<times> platform" where
  "removeTrack t m p =
     (let tr = tracks p t in
      if kind tr = [] \<or> kind tr \<noteq> ''audio''
      then (Threw (Error ''not an audio track''), m, p)
      else
        case Map_get (caches m) (id' tr) of
          Some cache \<Rightarrow>
            (case disconnect (gainNode cache) (node_id (destinationNode m)) (audioContext m) of
               (Threw e, ctx1) \<Rightarrow> (Threw e, m\<lparr>audioContext := ctx1\<rparr>, p)
             | (Returned u, ctx1) \<Rightarrow>
                 (case disconnect (sourceNode cache) (gainNode cache) ctx1 of
                    (Threw e, ctx2) \<Rightarrow> (Threw e, m\<lparr>audioContext := ctx2\<rparr>, p)
                  | (Returned u', ctx2) \<Rightarrow>
                      let m' = m\<lparr>audioContext := ctx2,
                                 caches := Map_delete (caches m) (id' tr)\<rparr>
                      in (Returned m', m', p)))
        | None \<Rightarrow> (Returned m, m, p))"

definition setTrackVolume ::
  "track_ref \<Rightarrow> number \<Rightarrow> AudioTrackMixer \<Rightarrow> platform \<Rightarrow> unit outcome \<times> AudioTrackMixer \<times> platform" where
  "setTrackVolume t volume m p =
     (let tr = tracks p t in
      if kind tr = [] \<or> kind tr \<noteq> ''audio''
      then (Threw (Error ''not an audio track''), m, p)
      else
        case Map_get (caches m) (id' tr) of
          Some cache \<Rightarrow>
            (case set_gain_value (gainNode cache) (js_divide volume 100) (audioContext m) of
               (Threw e, ctx1) \<Rightarrow> (Threw e, m\<lparr>audioContext := ctx1\<rparr>, p)
             | (Returned u, ctx1) \<Rightarrow> (Returned (), m\<lparr>audioContext := ctx1\<rparr>, p))
        | None \<Rightarrow> (Returned (), m, p))"

definition set_enabled :: "track_ref \<Rightarrow> bool \<Rightarrow> platform \<Rightarrow> platform" where
  "set_enabled r b p = p\<lparr>tracks := (tracks p)(r := (tracks p r)\<lparr>enabled := b\<rparr>)\<rparr>"

definition muteTrack ::
  "track_ref \<Rightarrow> AudioTrackMixer \<Rightarrow> platform \<Rightarrow> bool outcome \<times> AudioTrackMixer \<times> platform" where
  "muteTrack t m p =
     (let tr = tracks p t in
      if kind tr = [] \<or> kind tr \<noteq> ''audio''
      then (Threw (Error ''not an audio track''), m, p)
      else
        case Map_get (caches m) (id' tr) of
          Some cache \<Rightarrow> (Returned True, m, set_enabled (track cache) False p)
        | None \<Rightarrow> (Returned False, m, p))"

definition unmuteTrack ::
  "track_ref \<Rightarrow> AudioTrackMixer \<Rightarrow> platform \<Rightarrow> bool outcome \<times> AudioTrackMixer \<times> platform" where
  "unmuteTrack t m p =
     (let tr = tracks p t in
      if kind tr = [] \<or> kind tr \<noteq> ''audio''
      then (Threw (Error ''not an audio track''), m, p)
      else
        case Map_get (caches m) (id' tr) of
          Some cache \<Rightarrow> (Returned True, m, set_enabled (track cache) True p)
        | None \<Rightarrow> (Returned False, m, p))"

definition getTracks ::
  "AudioTrackMixer \<Rightarrow> platform \<Rightarrow> track_ref list outcome \<times> AudioTrackMixer \<times> platform" where
  "getTracks m p = (Returned (map (\<lambda>(k, cache). track cache) (caches m)), m, p)"

text \<open>\<^verbatim>\<open>getAudioTracks()[0]\<close> is \<^verbatim>\<open>undefined\<close> (here \<open>None\<close>) on a stream with no audio track.\<close>

definition getMixedTrack ::
  "AudioTrackMixer \<Rightarrow> platform \<Rightarrow> track_ref option outcome \<times> AudioTrackMixer \<times> platform" where
  "getMixedTrack m p =
     (Returned (case getAudioTracks p (stream (destinationNode m)) of
                  [] \<Rightarrow> None | x # xs \<Rightarrow> Some x), m, p)"

definition getMixedMediaStream ::
  "AudioTrackMixer \<Rightarrow> platform \<Rightarrow> MediaStream outcome \<times> AudioTrackMixer \<times> platform" where
  "getMixedMediaStream m p = (Returned (stream (destinationNode m)), m, p)"

text \<open>
  \<^verbatim>\<open>getMixedTrackVolume\<close>: \<open>wave\<close> is the waveform the analyser holds when the method is
  called. The loop runs over the sample buffer after the analyser has filled it.
\<close>

definition getMixedTrackVolume ::
  "8 word list \<Rightarrow> AudioTrackMixer \<Rightarrow> platform \<Rightarrow> int outcome \<times> AudioTrackMixer \<times> platform" where
  "getMixedTrackVolume wave m p =
     (case analyser m of
        Some an \<Rightarrow>
          let buf = getByteTimeDomainData wave (timeDomainData m);
              mx = fold (\<lambda>item mx. max mx (\<bar>uint item - BASE\<bar>)) buf 0
          in (Returned \<lfloor>(real_of_int mx / real_of_int BASE) * 100\<rfloor>,
              m\<lparr>timeDomainData := buf\<rparr>, p)
      | None \<Rightarrow> (Returned \<lfloor>(real_of_int 0 / real_of_int BASE) * 100\<rfloor>, m, p))"

text \<open>The body of \<^verbatim>\<open>destroy\<close>'s \<^verbatim>\<open>forEach\<close>, run over the registry in order.\<close>

fun destroy_forEach ::
  "(string \<times> TrackCache) list \<Rightarrow> node \<Rightarrow> AudioContext \<Rightarrow> unit outcome \<times> AudioContext" where
  "destroy_forEach [] d ctx = (Returned (), ctx)"
| "destroy_forEach ((k, cache) # rest) d ctx =
     (case disconnect (gainNode cache) d ctx of
        (Threw e, ctx1) \<Rightarrow> (Threw e, ctx1)
      | (Returned u, ctx1) \<Rightarrow>
          (case disconnect (sourceNode cache) (gainNode cache) ctx1 of
             (Threw e, ctx2) \<Rightarrow> (Threw e, ctx2)
           | (Returned u', ctx2) \<Rightarrow> destroy_forEach rest d ctx2))"

definition destroy ::
  "AudioTrackMixer \<Rightarrow> platform \<Rightarrow> completion outcome \<times> AudioTrackMixer \<times> platform" where
  "destroy m p =
     (case destroy_forEach (caches m) (node_id (destinationNode m)) (audioContext m) of
        (Threw e, ctx1) \<Rightarrow> (Threw e, m\<lparr>audioContext := ctx1\<rparr>, p)
      | (Returned u, ctx1) \<Rightarrow>
          let (signal, ctx2, p') = close ctx1 p
          in (Returned signal, m\<lparr>audioContext := ctx2, caches := []\<rparr>, p'))"

subsection \<open>The static helpers, and \<^verbatim>\<open>src/utils/agent.ts\<close>\<close>












definition getTracks_static :: "platform \<Rightarrow> MediaStream \<Rightarrow> track_ref list" where
  "getTracks_static p s = getAudioTracks p s"





section \<open>Reachable mixers and the registry invariant\<close>

text \<open>
  A mixer is reachable when the constructor returned it, or a method was called on a
  reachable mixer (with any arguments, on any platform state, whether it returned or
  threw), or the platform moved the open context of a reachable mixer to another state
  and the state-change observer ran.
\<close>

inductive reachable :: "AudioTrackMixer \<Rightarrow> bool" where
  constructed: "constructor w p = (Returned m, p') \<Longrightarrow> reachable m"
| added: "reachable m \<Longrightarrow> addTrack t m p = (r, m', p') \<Longrightarrow> reachable m'"
| removed: "reachable m \<Longrightarrow> removeTrack t m p = (r, m', p') \<Longrightarrow> reachable m'"
| volume_set: "reachable m \<Longrightarrow> setTrackVolume t v m p = (ru, m', p') \<Longrightarrow> reachable m'"
| muted: "reachable m \<Longrightarrow> muteTrack t m p = (rb, m', p') \<Longrightarrow> reachable m'"
| unmuted: "reachable m \<Longrightarrow> unmuteTrack t m p = (rb, m', p') \<Longrightarrow> reachable m'"
| got_tracks: "reachable m \<Longrightarrow> getTracks m p = (rl, m', p') \<Longrightarrow> reachable m'"
| got_mixed_track: "reachable m \<Longrightarrow> getMixedTrack m p = (ro, m', p') \<Longrightarrow> reachable m'"
| got_mixed_stream: "reachable m \<Longrightarrow> getMixedMediaStream m p = (rl, m', p') \<Longrightarrow> reachable m'"
| got_volume: "reachable m \<Longrightarrow> getMixedTrackVolume wave m p = (ri, m', p') \<Longrightarrow> reachable m'"
| destroyed: "reachable m \<Longrightarrow> destroy m p = (rc, m', p') \<Longrightarrow> reachable m'"
| state_changed:
    "reachable m \<Longrightarrow> ctxState (audioContext m) \<noteq> Closed \<Longrightarrow> s \<noteq> Closed \<Longrightarrow>
       reachable (onstatechange granted (m\<lparr>audioContext := (audioContext m)\<lparr>ctxState := s\<rparr>\<rparr>))"

text \<open>A registration is wired: source into gain, gain into the destination.\<close>

definition wired :: "AudioTrackMixer \<Rightarrow> TrackCache \<Rightarrow> bool" where
  "wired m cache =
     ((sourceNode cache, gainNode cache) \<in> edges (audioContext m)
      \<and> (gainNode cache, node_id (destinationNode m)) \<in> edges (audioContext m))"

text \<open>
  The invariant of the specification: one registration per identifier; every registration
  is wired; and every node that is connected through a second node into the destination
  is the source node of a registration whose gain node is that second node.
\<close>

definition registry_invariant :: "AudioTrackMixer \<Rightarrow> bool" where
  "registry_invariant m =
     (distinct (map fst (caches m))
      \<and> (\<forall>(k, cache) \<in> set (caches m). wired m cache)
      \<and> (\<forall>(s, g) \<in> edges (audioContext m).
            (g, node_id (destinationNode m)) \<in> edges (audioContext m) \<longrightarrow>
            (\<exists>(k, cache) \<in> set (caches m). sourceNode cache = s \<and> gainNode cache = g)))"

text \<open>
  The inductive strengthening: the mixer's nodes are pairwise distinct nodes of its
  context, and the graph holds the analyser's connection and the registrations'
  connections, and nothing else.
\<close>

definition registry_nodes :: "(string \<times> TrackCache) list \<Rightarrow> node list" where
  "registry_nodes cs = concat (map (\<lambda>(k, cache). [sourceNode cache, gainNode cache]) cs)"

definition registry_edges :: "node \<Rightarrow> (string \<times> TrackCache) list \<Rightarrow> (node \<times> node) set" where
  "registry_edges d cs =
     (\<Union>(k, cache) \<in> set cs. {(sourceNode cache, gainNode cache), (gainNode cache, d)})"

definition mixer_nodes :: "AudioTrackMixer \<Rightarrow> node list" where
  "mixer_nodes m =
     node_id (destinationNode m) # analyserSourceNode m #
     (case analyser m of None \<Rightarrow> [] | Some an \<Rightarrow> [an]) @ registry_nodes (caches m)"

definition well_wired :: "AudioTrackMixer \<Rightarrow> bool" where
  "well_wired m =
     (case analyser m of
        None \<Rightarrow> False
      | Some an \<Rightarrow>
          distinct (map fst (caches m))
          \<and> distinct (mixer_nodes m)
          \<and> (\<forall>n \<in> set (mixer_nodes m). n < nextNode (audioContext m))
          \<and> edges (audioContext m) =
              insert (analyserSourceNode m, an)
                (registry_edges (node_id (destinationNode m)) (caches m)))"


section \<open>Example tracks, pages and mixers\<close>

text \<open>
  Five track objects: the mixed output track, two audio tracks \<open>a\<close> and \<open>b\<close>, a
  video track, and a second object that also carries the identifier \<open>a\<close>.
\<close>

definition example_tracks :: "track_ref \<Rightarrow> MediaStreamTrack" where
  "example_tracks r =
     (if r = 10 then \<lparr>id' = ''mixed'', kind = ''audio'', enabled = True\<rparr>
      else if r = 11 then \<lparr>id' = ''a'', kind = ''audio'', enabled = True\<rparr>
      else if r = 12 then \<lparr>id' = ''b'', kind = ''audio'', enabled = True\<rparr>
      else if r = 13 then \<lparr>id' = ''v'', kind = ''video'', enabled = True\<rparr>
      else \<lparr>id' = ''a'', kind = ''audio'', enabled = True\<rparr>)"

definition example_platform :: platform where
  "example_platform = \<lparr>tracks = example_tracks, liveContexts = 0, console = []\<rparr>"

definition example_window :: window where
  "example_window =
     \<lparr>AudioContextClass = True, has_createMediaStreamDestination = True,
      destinationStream = [10], frequencyBinCount = 4\<rparr>"

text \<open>The mixer the constructor returns on that page, and the same after \<^verbatim>\<open>addTrack\<close> of track 11.\<close>

definition example_mixer :: AudioTrackMixer where
  "example_mixer =
     \<lparr>audioContext = \<lparr>nextNode = 3, edges = {(1, 2)}, gain = Map.empty, ctxState = Suspended\<rparr>,
      destinationNode = \<lparr>node_id = 0, stream = [10]\<rparr>,
      caches = [],
      analyserSourceNode = 1,
      analyser = Some 2,
      timeDomainData = [0, 0, 0, 0]\<rparr>"

definition example_cache :: TrackCache where
  "example_cache = \<lparr>track = 11, mediaStream = [11], sourceNode = 3, gainNode = 4\<rparr>"

definition example_mixer_a :: AudioTrackMixer where
  "example_mixer_a =
     \<lparr>audioContext = \<lparr>nextNode = 5, edges = {(4, 0), (3, 4), (1, 2)}, gain = [4 \<mapsto> 1],
                       ctxState = Suspended\<rparr>,
      destinationNode = \<lparr>node_id = 0, stream = [10]\<rparr>,
      caches = [(''a'', example_cache)],
      analyserSourceNode = 1,
      analyser = Some 2,
      timeDomainData = [0, 0, 0, 0]\<rparr>"

text \<open>
  Two pages on which the constructor fails: one whose contexts lack
  \<^verbatim>\<open>createMediaStreamDestination\<close> (the source names Edge 18), one with no audio-context
  class at all.
\<close>

definition edge18_window :: window where
  "edge18_window =
     \<lparr>AudioContextClass = True, has_createMediaStreamDestination = False,
      destinationStream = [], frequencyBinCount = 0\<rparr>"

definition bare_window :: window where
  "bare_window =
     \<lparr>AudioContextClass = False, has_createMediaStreamDestination = False,
      destinationStream = [], frequencyBinCount = 0\<rparr>"






section \<open>Properties\<close>

lemma Map_set_fresh:
  "Map_get xs k = None \<Longrightarrow> Map_set xs k v = xs @ [(k, v)]"
  unfolding Map_get_def Map_set_def
  by (induction xs) (auto split: if_splits)

subsection \<open>The strengthened invariant is kept by every method\<close>

lemma well_wired_constructor:
  "constructor w p = (Returned m, p') \<Longrightarrow> well_wired m"
  by (auto simp: constructor_def newAudioContext_def createMediaStreamDestination_def
      createMediaStreamSource_def createAnalyser_def createNode_def connect_def Let_def
      well_wired_def mixer_nodes_def registry_nodes_def registry_edges_def
      split: if_splits)

lemma registry_nodes_append:
  "registry_nodes (xs @ ys) = registry_nodes xs @ registry_nodes ys"
  by (simp add: registry_nodes_def)

lemma registry_edges_append:
  "registry_edges d (xs @ ys) = registry_edges d xs \<union> registry_edges d ys"
  by (auto simp: registry_edges_def)

lemma registry_nodes_simps:
  "registry_nodes [] = []"
  "registry_nodes ((k, c) # cs) = sourceNode c # gainNode c # registry_nodes cs"
  by (simp_all add: registry_nodes_def)

lemma registry_edges_simps:
  "registry_edges d [] = {}"
  "registry_edges d ((k, c) # cs) =
     insert (sourceNode c, gainNode c) (insert (gainNode c, d) (registry_edges d cs))"
  by (auto simp: registry_edges_def)

lemma Map_get_None_iff: "Map_get xs k = None \<longleftrightarrow> k \<notin> fst ` set xs"
  by (simp add: Map_get_def map_of_eq_None_iff)

lemma well_wired_addTrack:
  assumes "well_wired m"
  shows "well_wired (fst (snd (addTrack t m p)))"
  using assms
  by (auto simp: addTrack_def Let_def createMediaStreamSource_def createGain_def createNode_def
      connect_def well_wired_def mixer_nodes_def registry_nodes_append registry_edges_append
      Map_set_fresh Map_get_None_iff registry_nodes_simps registry_edges_simps
      split: option.splits)

lemma registry_edges_fst:
  "(a, b) \<in> registry_edges d cs \<Longrightarrow> a \<in> set (registry_nodes cs)"
  by (induction cs) (auto simp: registry_nodes_simps registry_edges_simps)

lemma map_of_registry_nodes:
  "map_of cs k = Some c \<Longrightarrow>
     sourceNode c \<in> set (registry_nodes cs) \<and> gainNode c \<in> set (registry_nodes cs)"
  by (induction cs) (auto simp: registry_nodes_simps split: if_splits)

lemma map_of_registry_edges:
  "map_of cs k = Some c \<Longrightarrow>
     (sourceNode c, gainNode c) \<in> registry_edges d cs \<and> (gainNode c, d) \<in> registry_edges d cs"
  by (induction cs) (auto simp: registry_edges_simps split: if_splits)

lemma registry_nodes_delete:
  "set (registry_nodes (AList.delete k cs)) \<subseteq> set (registry_nodes cs)"
  by (induction cs) (auto simp: registry_nodes_simps)

lemma distinct_registry_nodes_delete:
  "distinct (registry_nodes cs) \<Longrightarrow> distinct (registry_nodes (AList.delete k cs))"
proof (induction cs)
  case Nil
  then show ?case by simp
next
  case (Cons x cs)
  obtain k' c' where x: "x = (k', c')" by (cases x)
  show ?case using Cons registry_nodes_delete [of k cs]
    by (auto simp: x registry_nodes_simps)
qed

lemma registry_edges_delete:
  "distinct (map fst cs) \<Longrightarrow> distinct (d # registry_nodes cs) \<Longrightarrow> map_of cs k = Some c \<Longrightarrow>
     registry_edges d cs - {(gainNode c, d)} - {(sourceNode c, gainNode c)}
       = registry_edges d (AList.delete k cs)"
proof (induction cs)
  case Nil
  then show ?case by simp
next
  case (Cons x cs)
  obtain k' c' where x: "x = (k', c')" by (cases x)
  show ?case
  proof (cases "k' = k")
    case True
    then have c: "c' = c" using Cons.prems by (simp add: x)
    have absent: "k \<notin> fst ` set cs" using Cons.prems True by (auto simp: x)
    have "(gainNode c, d) \<notin> registry_edges d cs" "(sourceNode c, gainNode c) \<notin> registry_edges d cs"
      using Cons.prems registry_edges_fst [of _ _ d cs] by (auto simp: x c registry_nodes_simps)
    then show ?thesis using True absent Cons.prems
      by (auto simp: x c registry_edges_simps registry_nodes_simps)
  next
    case False
    then have m: "map_of cs k = Some c" using Cons.prems by (simp add: x)
    have IH: "registry_edges d cs - {(gainNode c, d)} - {(sourceNode c, gainNode c)}
       = registry_edges d (AList.delete k cs)"
      using Cons.IH Cons.prems m by (simp add: x registry_nodes_simps)
    show ?thesis using False Cons.prems map_of_registry_nodes [OF m] IH
      by (auto simp: x registry_edges_simps registry_nodes_simps)
  qed
qed


lemma map_of_source_neq_gain:
  "distinct (registry_nodes cs) \<Longrightarrow> map_of cs k = Some c \<Longrightarrow> sourceNode c \<noteq> gainNode c"
  by (induction cs) (auto simp: registry_nodes_simps split: if_splits)

lemma removeTrack_registered:
  assumes ww: "well_wired m"
    and kind: "kind (tracks p t) = ''audio''"
    and reg: "Map_get (caches m) (id' (tracks p t)) = Some c"
  shows "removeTrack t m p =
     (let m' = m\<lparr>audioContext := (audioContext m)
                  \<lparr>edges := edges (audioContext m) - {(gainNode c, node_id (destinationNode m))}
                             - {(sourceNode c, gainNode c)}\<rparr>,
                caches := Map_delete (caches m) (id' (tracks p t))\<rparr>
      in (Returned m', m', p))"
proof -
  obtain an where an: "analyser m = Some an" using ww by (auto simp: well_wired_def split: option.splits)
  have m: "map_of (caches m) (id' (tracks p t)) = Some c" using reg by (simp add: Map_get_def)
  have e: "edges (audioContext m) =
      insert (analyserSourceNode m, an) (registry_edges (node_id (destinationNode m)) (caches m))"
    using ww an by (simp add: well_wired_def)
  have d: "distinct (mixer_nodes m)" using ww an by (simp add: well_wired_def)
  have 1: "(gainNode c, node_id (destinationNode m)) \<in> edges (audioContext m)"
    and 2: "(sourceNode c, gainNode c) \<in> edges (audioContext m)"
    using map_of_registry_edges [OF m] e by auto
  have 3: "sourceNode c \<noteq> gainNode c"
    using map_of_source_neq_gain [OF _ m] d an by (auto simp: mixer_nodes_def)
  show ?thesis using kind reg 1 2 3
    by (simp add: removeTrack_def disconnect_def Let_def)
qed

lemma well_wired_removeTrack:
  assumes ww: "well_wired m"
  shows "well_wired (fst (snd (removeTrack t m p)))"
proof (cases "kind (tracks p t) = ''audio''")
  case False
  then show ?thesis using ww by (simp add: removeTrack_def Let_def)
next
  case True
  show ?thesis
  proof (cases "Map_get (caches m) (id' (tracks p t))")
    case None
    then show ?thesis using ww True by (simp add: removeTrack_def Let_def)
  next
    case (Some c)
    obtain an where an: "analyser m = Some an"
      using ww by (auto simp: well_wired_def split: option.splits)
    have m: "map_of (caches m) (id' (tracks p t)) = Some c" using Some by (simp add: Map_get_def)
    have dk: "distinct (map fst (caches m))" and d: "distinct (mixer_nodes m)"
      and lt: "\<forall>n \<in> set (mixer_nodes m). n < nextNode (audioContext m)"
      and e: "edges (audioContext m) =
        insert (analyserSourceNode m, an) (registry_edges (node_id (destinationNode m)) (caches m))"
      using ww an by (simp_all add: well_wired_def)
    have del: "registry_edges (node_id (destinationNode m)) (caches m)
        - {(gainNode c, node_id (destinationNode m))} - {(sourceNode c, gainNode c)}
        = registry_edges (node_id (destinationNode m)) (AList.delete (id' (tracks p t)) (caches m))"
      using registry_edges_delete [OF dk _ m, of "node_id (destinationNode m)"] d an
      by (simp add: mixer_nodes_def)
    have ne: "(analyserSourceNode m, an) \<noteq> (gainNode c, node_id (destinationNode m))"
      "(analyserSourceNode m, an) \<noteq> (sourceNode c, gainNode c)"
      using map_of_registry_nodes [OF m] d an by (auto simp: mixer_nodes_def)
    have edges': "edges (audioContext m) - {(gainNode c, node_id (destinationNode m))}
        - {(sourceNode c, gainNode c)}
        = insert (analyserSourceNode m, an)
            (registry_edges (node_id (destinationNode m)) (AList.delete (id' (tracks p t)) (caches m)))"
      using ne del e by auto
    show ?thesis
      using removeTrack_registered [OF ww True Some] an d lt dk edges'
        registry_nodes_delete [of "id' (tracks p t)" "caches m"]
        distinct_registry_nodes_delete [of "caches m" "id' (tracks p t)"]
      by (auto simp: Let_def well_wired_def mixer_nodes_def Map_delete_def distinct_delete)
  qed
qed

lemma well_wired_setTrackVolume:
  "well_wired m \<Longrightarrow> well_wired (fst (snd (setTrackVolume t v m p)))"
  by (auto simp: setTrackVolume_def set_gain_value_def Let_def well_wired_def mixer_nodes_def
      split: option.splits)

lemma destroy_forEach_ok:
  "distinct (d # registry_nodes cs) \<Longrightarrow> registry_edges d cs \<subseteq> edges ctx \<Longrightarrow>
     destroy_forEach cs d ctx = (Returned (), ctx\<lparr>edges := edges ctx - registry_edges d cs\<rparr>)"
proof (induction cs arbitrary: ctx)
  case Nil
  then show ?case by (simp add: registry_edges_simps)
next
  case (Cons x cs)
  obtain k c where x: "x = (k, c)" by (cases x)
  let ?ctx2 = "ctx\<lparr>edges := edges ctx - {(gainNode c, d)} - {(sourceNode c, gainNode c)}\<rparr>"
  have notin: "(gainNode c, d) \<notin> registry_edges d cs" "(sourceNode c, gainNode c) \<notin> registry_edges d cs"
    using Cons.prems registry_edges_fst [of _ _ d cs] by (auto simp: x registry_nodes_simps)
  have sub: "registry_edges d cs \<subseteq> edges ?ctx2"
    using Cons.prems notin by (auto simp: x registry_edges_simps)
  have dist: "distinct (d # registry_nodes cs)"
    using Cons.prems by (auto simp: x registry_nodes_simps)
  have IH: "destroy_forEach cs d ?ctx2 = (Returned (), ?ctx2\<lparr>edges := edges ?ctx2 - registry_edges d cs\<rparr>)"
    by (rule Cons.IH [OF dist sub])
  have in1: "(gainNode c, d) \<in> edges ctx" and in2: "(sourceNode c, gainNode c) \<in> edges ctx"
    using Cons.prems by (auto simp: x registry_edges_simps)
  have ne: "sourceNode c \<noteq> gainNode c" using Cons.prems by (auto simp: x registry_nodes_simps)
  have eq: "edges ctx - {(gainNode c, d)} - {(sourceNode c, gainNode c)} - registry_edges d cs
      = edges ctx - registry_edges d (x # cs)"
    by (auto simp: x registry_edges_simps)
  show ?case
    using in1 in2 ne IH eq by (simp add: x disconnect_def)
qed

lemma destroy_well_wired:
  assumes ww: "well_wired m"
  shows "destroy m p =
     (let (signal, ctx2, p') =
            close ((audioContext m)\<lparr>edges := {(analyserSourceNode m, the (analyser m))}\<rparr>) p
      in (Returned signal, m\<lparr>audioContext := ctx2, caches := []\<rparr>, p'))"
proof -
  obtain an where an: "analyser m = Some an"
    using ww by (auto simp: well_wired_def split: option.splits)
  have d: "distinct (mixer_nodes m)"
    and e: "edges (audioContext m) =
        insert (analyserSourceNode m, an) (registry_edges (node_id (destinationNode m)) (caches m))"
    using ww an by (simp_all add: well_wired_def)
  have ok: "destroy_forEach (caches m) (node_id (destinationNode m)) (audioContext m)
      = (Returned (), (audioContext m)\<lparr>edges := edges (audioContext m)
            - registry_edges (node_id (destinationNode m)) (caches m)\<rparr>)"
    using d an e by (intro destroy_forEach_ok) (auto simp: mixer_nodes_def)
  have "(analyserSourceNode m, an) \<notin> registry_edges (node_id (destinationNode m)) (caches m)"
    using d an registry_edges_fst [of _ _ "node_id (destinationNode m)" "caches m"]
    by (auto simp: mixer_nodes_def)
  then have "edges (audioContext m) - registry_edges (node_id (destinationNode m)) (caches m)
      = {(analyserSourceNode m, an)}"
    using e by auto
  then show ?thesis using ok an by (simp add: destroy_def)
qed

lemma well_wired_destroy:
  assumes ww: "well_wired m"
  shows "well_wired (fst (snd (destroy m p)))"
  using ww unfolding destroy_well_wired [OF ww]
  by (auto simp: close_def Let_def well_wired_def mixer_nodes_def registry_nodes_simps
      registry_edges_simps split: option.splits)

lemma well_wired_getMixedTrackVolume:
  "well_wired m \<Longrightarrow> well_wired (fst (snd (getMixedTrackVolume wave m p)))"
  by (auto simp: getMixedTrackVolume_def Let_def well_wired_def mixer_nodes_def split: option.splits)

lemma reachable_well_wired: "reachable m \<Longrightarrow> well_wired m"
proof (induction rule: reachable.induct)
  case (constructed w p m p')
  then show ?case by (rule well_wired_constructor)
next
  case (added m t p r m' p')
  then show ?case using well_wired_addTrack [of m t p] by simp
next
  case (removed m t p r m' p')
  then show ?case using well_wired_removeTrack [of m t p] by simp
next
  case (volume_set m t v p ru m' p')
  then show ?case using well_wired_setTrackVolume [of m t v p] by simp
next
  case (muted m t p rb m' p')
  then show ?case by (auto simp: muteTrack_def Let_def split: if_splits option.splits)
next
  case (unmuted m t p rb m' p')
  then show ?case by (auto simp: unmuteTrack_def Let_def split: if_splits option.splits)
next
  case (got_tracks m p rl m' p')
  then show ?case by (simp add: getTracks_def)
next
  case (got_mixed_track m p ro m' p')
  then show ?case by (simp add: getMixedTrack_def)
next
  case (got_mixed_stream m p rl m' p')
  then show ?case by (simp add: getMixedMediaStream_def)
next
  case (got_volume m wave p ri m' p')
  then show ?case using well_wired_getMixedTrackVolume [of m wave p] by simp
next
  case (destroyed m p rc m' p')
  then show ?case using well_wired_destroy [of m p] by simp
next
  case (state_changed m s granted)
  then show ?case
    by (auto simp: onstatechange_def resume_def well_wired_def mixer_nodes_def split: option.splits)
qed

lemma reachable_steps:
  assumes "reachable m"
  shows "reachable (fst (snd (addTrack t m p)))"
    and "reachable (fst (snd (removeTrack t m p)))"
    and "reachable (fst (snd (setTrackVolume t v m p)))"
    and "reachable (fst (snd (muteTrack t m p)))"
    and "reachable (fst (snd (unmuteTrack t m p)))"
    and "reachable (fst (snd (getTracks m p)))"
    and "reachable (fst (snd (getMixedTrack m p)))"
    and "reachable (fst (snd (getMixedMediaStream m p)))"
    and "reachable (fst (snd (getMixedTrackVolume wave m p)))"
    and "reachable (fst (snd (destroy m p)))"
proof -
  show "reachable (fst (snd (addTrack t m p)))"
    by (rule reachable.added [OF assms, of t p "fst (addTrack t m p)" _ "snd (snd (addTrack t m p))"]) simp
  show "reachable (fst (snd (removeTrack t m p)))"
    by (rule reachable.removed [OF assms, of t p "fst (removeTrack t m p)" _ "snd (snd (removeTrack t m p))"]) simp
  show "reachable (fst (snd (setTrackVolume t v m p)))"
    by (rule reachable.volume_set [OF assms, of t v p "fst (setTrackVolume t v m p)" _
          "snd (snd (setTrackVolume t v m p))"]) simp
  show "reachable (fst (snd (muteTrack t m p)))"
    by (rule reachable.muted [OF assms, of t p "fst (muteTrack t m p)" _ "snd (snd (muteTrack t m p))"]) simp
  show "reachable (fst (snd (unmuteTrack t m p)))"
    by (rule reachable.unmuted [OF assms, of t p "fst (unmuteTrack t m p)" _ "snd (snd (unmuteTrack t m p))"]) simp
  show "reachable (fst (snd (getTracks m p)))"
    by (rule reachable.got_tracks [OF assms, of p "fst (getTracks m p)" _ "snd (snd (getTracks m p))"]) simp
  show "reachable (fst (snd (getMixedTrack m p)))"
    by (rule reachable.got_mixed_track [OF assms, of p "fst (getMixedTrack m p)" _
          "snd (snd (getMixedTrack m p))"]) simp
  show "reachable (fst (snd (getMixedMediaStream m p)))"
    by (rule reachable.got_mixed_stream [OF assms, of p "fst (getMixedMediaStream m p)" _
          "snd (snd (getMixedMediaStream m p))"]) simp
  show "reachable (fst (snd (getMixedTrackVolume wave m p)))"
    by (rule reachable.got_volume [OF assms, of wave p "fst (getMixedTrackVolume wave m p)" _
          "snd (snd (getMixedTrackVolume wave m p))"]) simp
  show "reachable (fst (snd (destroy m p)))"
    by (rule reachable.destroyed [OF assms, of p "fst (destroy m p)" _ "snd (snd (destroy m p))"]) simp
qed

lemma well_wired_invariant:
  assumes ww: "well_wired m"
  shows "registry_invariant m"
proof -
  obtain an where an: "analyser m = Some an"
    using ww by (auto simp: well_wired_def split: option.splits)
  let ?d = "node_id (destinationNode m)"
  have dk: "distinct (map fst (caches m))" and d: "distinct (mixer_nodes m)"
    and e: "edges (audioContext m) = insert (analyserSourceNode m, an) (registry_edges ?d (caches m))"
    using ww an by (simp_all add: well_wired_def)
  have w: "\<forall>(k, cache) \<in> set (caches m). wired m cache"
    using e by (auto simp: wired_def registry_edges_def)
  have conv: "\<exists>(k, cache) \<in> set (caches m). sourceNode cache = s \<and> gainNode cache = g"
    if sg: "(s, g) \<in> edges (audioContext m)" and gd: "(g, ?d) \<in> edges (audioContext m)" for s g
  proof -
    have gn: "g \<in> set (registry_nodes (caches m))"
      using gd e d an registry_edges_fst [of g ?d ?d "caches m"] by (auto simp: mixer_nodes_def)
    then have "(s, g) \<in> registry_edges ?d (caches m)"
      using sg e d an by (auto simp: mixer_nodes_def)
    then obtain k c where kc: "(k, c) \<in> set (caches m)"
      and cases: "(s, g) = (sourceNode c, gainNode c) \<or> (s, g) = (gainNode c, ?d)"
      by (auto simp: registry_edges_def)
    have "g \<noteq> ?d" using gn d by (auto simp: mixer_nodes_def)
    then show ?thesis using kc cases by auto
  qed
  show ?thesis using dk w conv by (auto simp: registry_invariant_def)
qed

subsection \<open>The examples, evaluated\<close>

lemma example_constructor:
  "constructor example_window example_platform
     = (Returned example_mixer, example_platform\<lparr>liveContexts := 1\<rparr>)"
  by (simp add: constructor_def example_window_def example_mixer_def newAudioContext_def
      createMediaStreamDestination_def createMediaStreamSource_def createAnalyser_def
      createNode_def connect_def Let_def eval_nat_numeral example_platform_def)

lemma example_addTrack:
  "addTrack 11 example_mixer example_platform = (Returned example_mixer_a, example_mixer_a, example_platform)"
  by (simp add: addTrack_def example_mixer_def example_mixer_a_def example_cache_def
      example_platform_def example_tracks_def Map_get_def Map_set_def
      createMediaStreamSource_def createGain_def createNode_def connect_def Let_def
      eval_nat_numeral insert_commute)

lemma reachable_example_mixer: "reachable example_mixer"
  using example_constructor by (rule reachable.constructed)

lemma reachable_example_mixer_a: "reachable example_mixer_a"
  using reachable_example_mixer example_addTrack by (rule reachable.added)


lemma example_simps:
  "kind (tracks example_platform 13) = ''video''"
  "kind (tracks example_platform 14) = ''audio''"
  "id' (tracks example_platform 14) = ''a''"
  "kind (tracks example_platform 11) = ''audio''"
  "id' (tracks example_platform 11) = ''a''"
  "kind (tracks example_platform 12) = ''audio''"
  "id' (tracks example_platform 12) = ''b''"
  by (simp_all add: example_platform_def example_tracks_def)

lemma example_registry:
  "caches example_mixer = []"
  "caches example_mixer_a = [(''a'', example_cache)]"
  "Map_get (caches example_mixer) k = None"
  "Map_get (caches example_mixer_a) ''a'' = Some example_cache"
  "Map_get (caches example_mixer_a) ''b'' = None"
  by (simp_all add: example_mixer_def example_mixer_a_def Map_get_def)

subsection \<open>C1: \<^verbatim>\<open>addTrack\<close>\<close>

text \<open>
  C1. For every mixer and every track: \<^verbatim>\<open>addTrack\<close> throws the error
  \<^verbatim>\<open>not an audio track\<close> when the track's kind is not \<^verbatim>\<open>audio\<close>, and the error
  \<^verbatim>\<open>audio track (id: ...) has already been added\<close> when the registry holds a
  registration for the track's identifier; in both cases the mixer (its registry and its
  graph) and the platform are as before. Otherwise it creates a source node and a gain
  node (gain 1), both new to the context, connects source to gain and gain to the
  destination, appends the registration under the track's identifier, and returns the
  mixer. On a reachable mixer the two new nodes differ from every node the mixer holds.
\<close>

theorem addTrack_contract:
  "(kind (tracks p t) \<noteq> ''audio'' \<longrightarrow>
      addTrack t m p = (Threw (Error ''not an audio track''), m, p))
   \<and> (kind (tracks p t) = ''audio'' \<and> Map_get (caches m) (id' (tracks p t)) \<noteq> None \<longrightarrow>
      addTrack t m p =
        (Threw (Error (''audio track (id: '' @ id' (tracks p t) @ '') has already been added'')),
         m, p))
   \<and> (kind (tracks p t) = ''audio'' \<and> Map_get (caches m) (id' (tracks p t)) = None \<longrightarrow>
      (let src = nextNode (audioContext m);
           g = Suc (nextNode (audioContext m));
           cache = \<lparr>track = t, mediaStream = [t], sourceNode = src, gainNode = g\<rparr>;
           m' = m\<lparr>audioContext := (audioContext m)
                      \<lparr>nextNode := Suc g,
                       edges := insert (g, node_id (destinationNode m))
                                  (insert (src, g) (edges (audioContext m))),
                       gain := (gain (audioContext m))(g \<mapsto> 1)\<rparr>,
                    caches := caches m @ [(id' (tracks p t), cache)]\<rparr>
       in addTrack t m p = (Returned m', m', p)
          \<and> Map_get (caches m') (id' (tracks p t)) = Some cache
          \<and> (reachable m \<longrightarrow> src \<notin> set (mixer_nodes m) \<and> g \<notin> set (mixer_nodes m))))"
proof (intro conjI impI)
  assume "kind (tracks p t) \<noteq> ''audio''"
  then show "addTrack t m p = (Threw (Error ''not an audio track''), m, p)"
    by (simp add: addTrack_def Let_def)
next
  assume "kind (tracks p t) = ''audio'' \<and> Map_get (caches m) (id' (tracks p t)) \<noteq> None"
  then show "addTrack t m p =
        (Threw (Error (''audio track (id: '' @ id' (tracks p t) @ '') has already been added'')),
         m, p)"
    by (auto simp: addTrack_def Let_def)
next
  assume a: "kind (tracks p t) = ''audio'' \<and> Map_get (caches m) (id' (tracks p t)) = None"
  have fresh: "nextNode (audioContext m) \<notin> set (mixer_nodes m)
      \<and> Suc (nextNode (audioContext m)) \<notin> set (mixer_nodes m)" if "reachable m"
  proof -
    have "\<forall>n \<in> set (mixer_nodes m). n < nextNode (audioContext m)"
      using reachable_well_wired [OF that] by (auto simp: well_wired_def split: option.splits)
    then show ?thesis by fastforce
  qed
  have get: "Map_get (xs @ [(k, v)]) k = Some v" if "Map_get xs k = None" for xs :: "(string \<times> TrackCache) list" and k v
    using that by (simp add: Map_get_def map_add_def)
  show "let src = nextNode (audioContext m);
           g = Suc (nextNode (audioContext m));
           cache = \<lparr>track = t, mediaStream = [t], sourceNode = src, gainNode = g\<rparr>;
           m' = m\<lparr>audioContext := (audioContext m)
                      \<lparr>nextNode := Suc g,
                       edges := insert (g, node_id (destinationNode m))
                                  (insert (src, g) (edges (audioContext m))),
                       gain := (gain (audioContext m))(g \<mapsto> 1)\<rparr>,
                    caches := caches m @ [(id' (tracks p t), cache)]\<rparr>
       in addTrack t m p = (Returned m', m', p)
          \<and> Map_get (caches m') (id' (tracks p t)) = Some cache
          \<and> (reachable m \<longrightarrow> src \<notin> set (mixer_nodes m) \<and> g \<notin> set (mixer_nodes m))"
    using a fresh get
    by (simp add: addTrack_def Let_def createMediaStreamSource_def createGain_def createNode_def
        connect_def Map_set_fresh)
qed

theorem addTrack_contract_witness:
  "kind (tracks example_platform 13) \<noteq> ''audio''
   \<and> addTrack 13 example_mixer_a example_platform
       = (Threw (Error ''not an audio track''), example_mixer_a, example_platform)
   \<and> kind (tracks example_platform 14) = ''audio''
   \<and> Map_get (caches example_mixer_a) (id' (tracks example_platform 14)) \<noteq> None
   \<and> addTrack 14 example_mixer_a example_platform
       = (Threw (Error ''audio track (id: a) has already been added''),
          example_mixer_a, example_platform)
   \<and> kind (tracks example_platform 11) = ''audio''
   \<and> Map_get (caches example_mixer) (id' (tracks example_platform 11)) = None
   \<and> reachable example_mixer
   \<and> addTrack 11 example_mixer example_platform
       = (Returned example_mixer_a, example_mixer_a, example_platform)
   \<and> Map_get (caches example_mixer_a) ''a'' = Some example_cache
   \<and> 3 \<notin> set (mixer_nodes example_mixer) \<and> 4 \<notin> set (mixer_nodes example_mixer)"
proof -
  let ?src = "nextNode (audioContext example_mixer)"
  let ?M = "example_mixer\<lparr>audioContext := (audioContext example_mixer)
                \<lparr>nextNode := Suc (Suc ?src),
                 edges := insert (Suc ?src, node_id (destinationNode example_mixer))
                            (insert (?src, Suc ?src) (edges (audioContext example_mixer))),
                 gain := (gain (audioContext example_mixer))(Suc ?src \<mapsto> 1)\<rparr>,
              caches := caches example_mixer @
                [(''a'', \<lparr>track = 11, mediaStream = [11], sourceNode = ?src, gainNode = Suc ?src\<rparr>)]\<rparr>"
  have M: "?M = example_mixer_a"
    by (simp add: example_mixer_def example_mixer_a_def example_cache_def insert_commute)
  have n: "?src = 3" by (simp add: example_mixer_def)
  have 1: "addTrack 13 example_mixer_a example_platform
       = (Threw (Error ''not an audio track''), example_mixer_a, example_platform)"
    using addTrack_contract [of example_platform 13 example_mixer_a]
    by (simp add: example_simps)
  have 2: "addTrack 14 example_mixer_a example_platform
       = (Threw (Error ''audio track (id: a) has already been added''),
          example_mixer_a, example_platform)"
    using addTrack_contract [of example_platform 14 example_mixer_a]
    by (simp add: example_simps example_registry(4))
  have 3: "addTrack 11 example_mixer example_platform = (Returned ?M, ?M, example_platform)
     \<and> ?src \<notin> set (mixer_nodes example_mixer) \<and> Suc ?src \<notin> set (mixer_nodes example_mixer)"
    using addTrack_contract [of example_platform 11 example_mixer] reachable_example_mixer
    by (simp add: example_simps example_registry(3) Let_def)
  show ?thesis
    using 1 2 3 [unfolded M, unfolded n] reachable_example_mixer
    by (simp add: example_simps example_registry(3,4))
qed

subsection \<open>C2: the registry invariant\<close>

text \<open>
  C2. On every reachable mixer the registry holds at most one registration per
  identifier, every registration's source node is connected to its gain node and that
  gain node to the destination, and conversely every node connected through a second
  node into the destination is the source node of a registration with that gain node.
  The constructor establishes this and every method keeps it: it holds of the mixer
  that \<^verbatim>\<open>addTrack\<close>, \<^verbatim>\<open>removeTrack\<close>, \<^verbatim>\<open>setTrackVolume\<close>, \<^verbatim>\<open>muteTrack\<close>,
  \<^verbatim>\<open>unmuteTrack\<close>, the getters and \<^verbatim>\<open>destroy\<close> leave behind, whatever their arguments
  and whether they return or throw.
\<close>

theorem registry_invariant_kept:
  assumes "reachable m"
  shows "registry_invariant m
    \<and> registry_invariant (fst (snd (addTrack t m p)))
    \<and> registry_invariant (fst (snd (removeTrack t m p)))
    \<and> registry_invariant (fst (snd (setTrackVolume t v m p)))
    \<and> registry_invariant (fst (snd (muteTrack t m p)))
    \<and> registry_invariant (fst (snd (unmuteTrack t m p)))
    \<and> registry_invariant (fst (snd (getTracks m p)))
    \<and> registry_invariant (fst (snd (getMixedTrack m p)))
    \<and> registry_invariant (fst (snd (getMixedMediaStream m p)))
    \<and> registry_invariant (fst (snd (getMixedTrackVolume wave m p)))
    \<and> registry_invariant (fst (snd (destroy m p)))"
proof -
  have inv: "registry_invariant m'" if "reachable m'" for m'
    using that by (intro well_wired_invariant reachable_well_wired)
  show ?thesis
    by (intro conjI inv assms reachable_steps [OF assms])
qed

theorem registry_invariant_kept_witness:
  "reachable example_mixer_a
   \<and> registry_invariant example_mixer_a
   \<and> registry_invariant (fst (snd (addTrack 12 example_mixer_a example_platform)))
   \<and> registry_invariant (fst (snd (removeTrack 11 example_mixer_a example_platform)))
   \<and> registry_invariant (fst (snd (setTrackVolume 11 (Num 50) example_mixer_a example_platform)))
   \<and> registry_invariant (fst (snd (destroy example_mixer_a example_platform)))
   \<and> distinct (map fst (caches example_mixer_a))
   \<and> wired example_mixer_a example_cache"
proof -
  have "registry_invariant example_mixer_a"
    using registry_invariant_kept [OF reachable_example_mixer_a] by simp
  then have "distinct (map fst (caches example_mixer_a)) \<and> wired example_mixer_a example_cache"
    by (simp add: registry_invariant_def example_registry(2))
  then show ?thesis
    using registry_invariant_kept [OF reachable_example_mixer_a, of 12 example_platform "Num 50"]
      registry_invariant_kept [OF reachable_example_mixer_a, of 11 example_platform "Num 50"]
      reachable_example_mixer_a
    by simp
qed

lemma registry_invariant_discriminates:
  "\<not> registry_invariant (example_mixer_a\<lparr>caches := []\<rparr>)"
  "\<not> registry_invariant (example_mixer_a\<lparr>caches := [(''a'', example_cache), (''a'', example_cache)]\<rparr>)"
  "\<not> registry_invariant
       (example_mixer_a\<lparr>audioContext := (audioContext example_mixer_a)\<lparr>edges := {(1, 2)}\<rparr>\<rparr>)"
  by (simp_all add: registry_invariant_def example_mixer_a_def example_cache_def wired_def)

subsection \<open>C3: a constructor that fails\<close>

text \<open>
  C3, as the code has it. Without an audio-context class the constructor throws the
  capability error before anything is created. With the class, on a context that lacks
  \<^verbatim>\<open>createMediaStreamDestination\<close>, it throws the same error after the context was
  created, and does not close it: the platform is left with one more open context. In
  both cases no mixer is returned.
\<close>

theorem constructor_failure:
  "(\<not> AudioContextClass w \<longrightarrow>
      constructor w p
        = (Threw (Error ''the environment doesnot support to mix audio track''), p))
   \<and> (AudioContextClass w \<and> \<not> has_createMediaStreamDestination w \<longrightarrow>
      constructor w p
        = (Threw (Error ''the environment doesnot support to mix audio track''),
           p\<lparr>liveContexts := Suc (liveContexts p)\<rparr>))"
  by (simp add: constructor_def newAudioContext_def)

theorem constructor_failure_witness:
  "\<not> AudioContextClass bare_window
   \<and> constructor bare_window example_platform
       = (Threw (Error ''the environment doesnot support to mix audio track''), example_platform)
   \<and> AudioContextClass edge18_window \<and> \<not> has_createMediaStreamDestination edge18_window
   \<and> constructor edge18_window example_platform
       = (Threw (Error ''the environment doesnot support to mix audio track''),
          example_platform\<lparr>liveContexts := 1\<rparr>)"
  using constructor_failure [of bare_window example_platform]
    constructor_failure [of edge18_window example_platform]
  by (simp add: bare_window_def edge18_window_def example_platform_def)

text \<open>
  C3 as stated fails: on a page whose contexts lack \<^verbatim>\<open>createMediaStreamDestination\<close>
  the constructor throws, and the context it created stays allocated.
\<close>

theorem constructor_retains_context:
  "AudioContextClass edge18_window
   \<and> \<not> has_createMediaStreamDestination edge18_window
   \<and> fst (constructor edge18_window example_platform)
       = Threw (Error ''the environment doesnot support to mix audio track'')
   \<and> liveContexts example_platform = 0
   \<and> liveContexts (snd (constructor edge18_window example_platform)) = 1
   \<and> snd (constructor edge18_window example_platform) \<noteq> example_platform"
  by (simp add: constructor_def newAudioContext_def edge18_window_def example_platform_def)

subsection \<open>Rounding\<close>

lemma floor_log2_eq:
  assumes "0 < x" "2 powi e \<le> x" "x < 2 powi (e + 1)"
  shows "\<lfloor>log 2 x\<rfloor> = e"
proof -
  have "of_int e \<le> log 2 x" using assms by (simp add: le_log_iff powr_real_of_int')
  moreover have "log 2 x < of_int (e + 1)" using assms
    by (subst log_less_iff) (simp_all add: powr_real_of_int' del: of_int_add)
  ultimately show ?thesis by linarith
qed

lemma floor_log2_bounds:
  assumes "0 < x"
  shows "2 powi \<lfloor>log 2 x\<rfloor> \<le> x" "x < 2 powi (\<lfloor>log 2 x\<rfloor> + 1)"
proof -
  have "2 powr of_int \<lfloor>log 2 x\<rfloor> \<le> x"
    using assms le_log_iff [of 2 x "of_int \<lfloor>log 2 x\<rfloor>"] by simp
  then show "2 powi \<lfloor>log 2 x\<rfloor> \<le> x" by (simp add: powr_real_of_int')
  have "log 2 x < of_int (\<lfloor>log 2 x\<rfloor> + 1)" by linarith
  then have "x < 2 powr of_int (\<lfloor>log 2 x\<rfloor> + 1)"
    using assms log_less_iff [of 2 x "of_int (\<lfloor>log 2 x\<rfloor> + 1)"] by simp
  then show "x < 2 powi (\<lfloor>log 2 x\<rfloor> + 1)" by (simp add: powr_real_of_int' del: of_int_add)
qed

lemma round_half_even_near: "\<bar>of_int (round_half_even y) - y\<bar> \<le> 1 / 2"
  unfolding round_half_even_def Let_def by (auto; linarith)

lemma round_half_even_le: "y \<le> of_int n \<Longrightarrow> round_half_even y \<le> n"
  unfolding round_half_even_def Let_def
  by (auto simp: floor_le_iff; linarith)

lemma round_half_even_ge: "of_int n \<le> y \<Longrightarrow> n \<le> round_half_even y"
  unfolding round_half_even_def Let_def
  by (auto simp: le_floor_iff; linarith)

lemma round_half_even_of_int [simp]: "round_half_even (of_int n) = n"
  by (simp add: round_half_even_def)

lemma round_half_even_eq:
  "of_int n - 1 / 2 < y \<Longrightarrow> y < of_int n + 1 / 2 \<Longrightarrow> round_half_even y = n"
  unfolding round_half_even_def Let_def
  by (auto; linarith)

lemma two_powi_split:
  assumes "a \<le> k"
  shows "(2::real) powi k = of_int (2 ^ nat (k - a)) * 2 powi a"
proof -
  have "(2::real) powi k = 2 powi ((k - a) + a)" by simp
  also have "\<dots> = 2 powi (k - a) * 2 powi a" by (subst power_int_add) simp_all
  also have "(2::real) powi (k - a) = of_int (2 ^ nat (k - a))"
    using assms by (simp add: power_int_def)
  finally show ?thesis .
qed

lemma quantum_pos: "0 < quantum prec emin x"
  by (simp add: quantum_def)

lemma nearest_le_powi:
  assumes "x \<le> 2 powi k" and "max emin \<lfloor>log 2 \<bar>x\<bar>\<rfloor> - (prec - 1) \<le> k"
  shows "nearest prec emin x \<le> 2 powi k"
proof (cases "x = 0")
  case True
  then show ?thesis by (simp add: nearest_def)
next
  case False
  let ?q = "quantum prec emin x"
  let ?N = "2 ^ nat (k - (max emin \<lfloor>log 2 \<bar>x\<bar>\<rfloor> - (prec - 1)))"
  have k: "2 powi k = of_int ?N * ?q"
    unfolding quantum_def by (rule two_powi_split [OF assms(2)])
  have "x / ?q \<le> of_int ?N" using assms(1) quantum_pos [of prec emin x]
    by (simp add: k pos_divide_le_eq)
  then have "round_half_even (x / ?q) \<le> ?N" by (rule round_half_even_le)
  then have "of_int (round_half_even (x / ?q)) * ?q \<le> of_int ?N * ?q"
    using quantum_pos [of prec emin x] by (simp del: of_int_power)
  then show ?thesis using False by (simp add: nearest_def k)
qed


lemma nearest_minus: "nearest prec emin (- x) = - nearest prec emin x"
proof -
  have "round_half_even (- y) = - round_half_even y" for y
    unfolding round_half_even_def Let_def
    by (cases "y = of_int \<lfloor>y\<rfloor>") (auto simp: floor_minus ceiling_altdef; linarith)+
  then show ?thesis by (simp add: nearest_def quantum_def)
qed

lemma floor_log2_le:
  assumes "0 < x" "x \<le> 2 powi k"
  shows "\<lfloor>log 2 x\<rfloor> \<le> k"
proof (rule ccontr)
  assume "\<not> \<lfloor>log 2 x\<rfloor> \<le> k"
  then have "k + 1 \<le> \<lfloor>log 2 x\<rfloor>" by simp
  then have "(2::real) powi (k + 1) \<le> 2 powi \<lfloor>log 2 x\<rfloor>" by (intro power_int_increasing) simp_all
  moreover have "(2::real) powi k < 2 powi (k + 1)" by (intro power_int_strict_increasing) simp_all
  ultimately show False using floor_log2_bounds(1) [OF assms(1)] assms(2) by linarith
qed


lemma nearest_abs_le:
  assumes "\<bar>x\<bar> \<le> 2 powi k" and "emin \<le> k" and "1 \<le> prec"
  shows "\<bar>nearest prec emin x\<bar> \<le> 2 powi k"
proof (cases "x = 0")
  case True
  then show ?thesis by (simp add: nearest_def)
next
  case False
  then have "\<lfloor>log 2 \<bar>x\<bar>\<rfloor> \<le> k" using assms(1) by (intro floor_log2_le) simp_all
  then have q: "max emin \<lfloor>log 2 \<bar>x\<bar>\<rfloor> - (prec - 1) \<le> k"
    and q': "max emin \<lfloor>log 2 \<bar>- x\<bar>\<rfloor> - (prec - 1) \<le> k" using assms(2,3) by simp_all
  have "nearest prec emin x \<le> 2 powi k"
    using assms(1) by (intro nearest_le_powi q) simp
  moreover have "nearest prec emin (- x) \<le> 2 powi k"
    using assms(1) by (intro nearest_le_powi q') simp
  ultimately show ?thesis by (simp add: nearest_minus abs_le_iff)
qed



lemma nearest_nonneg:
  assumes "0 \<le> x"
  shows "0 \<le> nearest prec emin x"
proof (cases "x = 0")
  case True
  then show ?thesis by (simp add: nearest_def)
next
  case False
  have "of_int 0 \<le> x / quantum prec emin x" using assms quantum_pos [of prec emin x] by simp
  then have "0 \<le> round_half_even (x / quantum prec emin x)" by (rule round_half_even_ge)
  then show ?thesis using False quantum_pos [of prec emin x] by (simp add: nearest_def)
qed

lemma nearest_error:
  "\<bar>nearest prec emin x - x\<bar> \<le> quantum prec emin x / 2"
proof (cases "x = 0")
  case True
  then show ?thesis using quantum_pos [of prec emin 0] by (simp add: nearest_def)
next
  case False
  let ?q = "quantum prec emin x"
  have q: "0 < ?q" by (rule quantum_pos)
  have "nearest prec emin x - x = (of_int (round_half_even (x / ?q)) - x / ?q) * ?q"
    using False q by (simp add: nearest_def field_simps)
  then have "\<bar>nearest prec emin x - x\<bar> = \<bar>of_int (round_half_even (x / ?q)) - x / ?q\<bar> * ?q"
    using q by (simp add: abs_mult)
  also have "\<dots> \<le> 1 / 2 * ?q"
    using round_half_even_near [of "x / ?q"] q by (intro mult_right_mono) simp_all
  finally show ?thesis by simp
qed

lemma nearest_error_unit:
  assumes "\<bar>x\<bar> \<le> 1" and "emin \<le> 0" and "1 \<le> prec"
  shows "\<bar>nearest prec emin x - x\<bar> \<le> 2 powi (- prec)"
proof (cases "x = 0")
  case True
  then show ?thesis by (simp add: nearest_def)
next
  case False
  have "\<lfloor>log 2 \<bar>x\<bar>\<rfloor> \<le> 0" using False assms(1) by (intro floor_log2_le) simp_all
  then have "max emin \<lfloor>log 2 \<bar>x\<bar>\<rfloor> - (prec - 1) \<le> 1 - prec" using assms(2) by simp
  then have "quantum prec emin x \<le> 2 powi (1 - prec)"
    unfolding quantum_def by (intro power_int_increasing) simp_all
  also have "(2::real) powi (1 - prec) = 2 * 2 powi (- prec)"
    by (simp add: power_int_diff power_int_minus field_simps)
  finally show ?thesis using nearest_error [of prec emin x] by simp
qed

lemma nearest_eval:
  assumes "x \<noteq> 0" and "2 powi e \<le> \<bar>x\<bar>" and "\<bar>x\<bar> < 2 powi (e + 1)" and "emin \<le> e"
    and "of_int n - 1 / 2 < x / 2 powi (e - (prec - 1))"
    and "x / 2 powi (e - (prec - 1)) < of_int n + 1 / 2"
  shows "nearest prec emin x = of_int n * 2 powi (e - (prec - 1))"
proof -
  have e: "\<lfloor>log 2 \<bar>x\<bar>\<rfloor> = e" using assms(1-3) by (intro floor_log2_eq) simp_all
  have q: "quantum prec emin x = 2 powi (e - (prec - 1))"
    using assms(4) by (simp add: quantum_def e max_def)
  show ?thesis
    using assms(1) round_half_even_eq [OF assms(5,6)] by (simp add: nearest_def q)
qed


lemma float_is_double:
  assumes "nearest 24 (- 126) x = x"
  shows "nearest 53 (- 1022) x = x"
proof (cases "x = 0")
  case True
  then show ?thesis by (simp add: nearest_def)
next
  case False
  let ?e = "\<lfloor>log 2 \<bar>x\<bar>\<rfloor>"
  let ?a24 = "max (- 126) ?e - (24 - 1)"
  let ?a53 = "max (- 1022) ?e - (53 - 1)"
  let ?n = "round_half_even (x / quantum 24 (- 126) x)"
  let ?N = "2 ^ nat (?a24 - ?a53)"
  have le: "?a53 \<le> ?a24" by linarith
  have q: "quantum 24 (- 126) x = of_int ?N * quantum 53 (- 1022) x"
    unfolding quantum_def by (rule two_powi_split [OF le])
  have x: "x = of_int ?n * quantum 24 (- 126) x"
    using assms False by (simp add: nearest_def)
  have "x / quantum 53 (- 1022) x = of_int (?n * ?N)"
    using quantum_pos [of 53 "- 1022" x] by (subst x) (simp add: q del: of_int_power)
  then have "round_half_even (x / quantum 53 (- 1022) x) = ?n * ?N"
    by (simp only: round_half_even_of_int)
  then have "nearest 53 (- 1022) x = of_int (?n * ?N) * quantum 53 (- 1022) x"
    using False by (simp add: nearest_def)
  also have "\<dots> = of_int ?n * quantum 24 (- 126) x" by (simp add: q del: of_int_power)
  also have "\<dots> = x" using x by simp
  finally show ?thesis .
qed

lemma to_float_divide_in_range:
  assumes "\<bar>v\<bar> \<le> 10 ^ 40"
  shows "to_float (js_divide (Num v) 100) = Some (nearest 24 (- 126) (nearest 53 (- 1022) (v / 100)))"
proof -
  let ?d = "nearest 53 (- 1022) (v / 100)"
  have "\<bar>v / 100\<bar> \<le> 10 ^ 38" using assms by simp
  also have "(10::real) ^ 38 \<le> 2 powi 127" by simp
  finally have x: "\<bar>v / 100\<bar> \<le> 2 powi 127" .
  have d: "\<bar>?d\<bar> \<le> 2 powi 127" using x by (rule nearest_abs_le) simp_all
  have "(2::real) powi 127 < 2 ^ 1024" by simp
  then have fin: "\<not> 2 ^ 1024 \<le> ?d" "\<not> ?d \<le> - (2 ^ 1024)" using d by linarith+
  have "\<bar>nearest 24 (- 126) ?d\<bar> \<le> 2 powi 127" using d by (rule nearest_abs_le) simp_all
  moreover have "(2::real) powi 127 < 2 ^ 128" by simp
  ultimately have g: "\<not> 2 ^ 128 \<le> \<bar>nearest 24 (- 126) ?d\<bar>" by linarith
  show ?thesis using fin g by (simp add: js_divide_def to_double_def to_float_def Let_def)
qed



lemma setTrackVolume_registered:
  assumes "kind (tracks p t) = ''audio''" and "Map_get (caches m) (id' (tracks p t)) = Some cache"
  shows "setTrackVolume t volume m p =
     (case to_float (js_divide volume 100) of
        None \<Rightarrow> (Threw TypeError, m, p)
      | Some g \<Rightarrow>
          (Returned (),
           m\<lparr>audioContext := (audioContext m)\<lparr>gain := (gain (audioContext m))(gainNode cache \<mapsto> g)\<rparr>\<rparr>,
           p))"
  using assms by (simp add: setTrackVolume_def set_gain_value_def Let_def split: option.splits)

text \<open>The volumes of the examples, rounded: first to a double, then to a float.\<close>

lemma rounded_33:
  "nearest 24 (- 126) (nearest 53 (- 1022) (33 / 100)) = 11072963 / 33554432"
proof -
  have d: "nearest 53 (- 1022) (33 / 100) = 5944751508129055 / 2 ^ 54"
    using nearest_eval [of "33 / 100" "- 2" "- 1022" 5944751508129055 53] by simp
  show ?thesis
    unfolding d
    using nearest_eval [of "5944751508129055 / 2 ^ 54" "- 2" "- 126" 11072963 24] by simp
qed


lemma rounded_50: "nearest 53 (- 1022) (1 / 2) = 1 / 2" "nearest 24 (- 126) (1 / 2) = 1 / 2"
  using nearest_eval [of "1 / 2" "- 1" "- 1022" "2 ^ 52" 53]
    nearest_eval [of "1 / 2" "- 1" "- 126" "2 ^ 23" 24] by simp_all



lemma doubles:
  "to_double 33 = Num 33" "to_double 133 = Num 133" "to_double (2 ^ 140) = Num (2 ^ 140)"
  using nearest_eval [of 33 5 "- 1022" "33 * 2 ^ 47" 53]
    nearest_eval [of 133 7 "- 1022" "133 * 2 ^ 45" 53]
    nearest_eval [of "2 ^ 140" 140 "- 1022" "2 ^ 52" 53]
  by (simp_all add: to_double_def)

subsection \<open>C4 and C10: \<^verbatim>\<open>setTrackVolume\<close>\<close>

text \<open>
  C4, as the code has it. \<^verbatim>\<open>setTrackVolume\<close> throws \<^verbatim>\<open>not an audio track\<close> for a track
  that is not of audio kind; for an audio track whose identifier is not registered it
  returns and changes nothing; for a registered one and a volume in [0, 100] it returns
  and sets the gain value of the registration's gain node to the double quotient
  volume / 100 rounded to single precision: a value in [0, 1] that differs from
  volume / 100 by at most \<^verbatim>\<open>2^-24 + 2^-53\<close>, and that is volume / 100 itself when
  volume / 100 is a single-precision float; nothing else changes.
\<close>

theorem setTrackVolume_contract:
  "(kind (tracks p t) \<noteq> ''audio'' \<longrightarrow>
      setTrackVolume t volume m p = (Threw (Error ''not an audio track''), m, p))
   \<and> (kind (tracks p t) = ''audio'' \<and> Map_get (caches m) (id' (tracks p t)) = None \<longrightarrow>
      setTrackVolume t volume m p = (Returned (), m, p))
   \<and> (kind (tracks p t) = ''audio'' \<and> Map_get (caches m) (id' (tracks p t)) = Some cache
        \<and> 0 \<le> v \<and> v \<le> 100 \<longrightarrow>
      (let g = nearest 24 (- 126) (nearest 53 (- 1022) (v / 100)) in
       setTrackVolume t (Num v) m p
         = (Returned (),
            m\<lparr>audioContext := (audioContext m)
                 \<lparr>gain := (gain (audioContext m))(gainNode cache \<mapsto> g)\<rparr>\<rparr>,
            p)
       \<and> 0 \<le> g \<and> g \<le> 1 \<and> \<bar>g - v / 100\<bar> \<le> 1 / 2 ^ 24 + 1 / 2 ^ 53
       \<and> (nearest 24 (- 126) (v / 100) = v / 100 \<longrightarrow> g = v / 100)))"
proof (intro conjI impI)
  assume "kind (tracks p t) \<noteq> ''audio''"
  then show "setTrackVolume t volume m p = (Threw (Error ''not an audio track''), m, p)"
    by (simp add: setTrackVolume_def Let_def)
next
  assume "kind (tracks p t) = ''audio'' \<and> Map_get (caches m) (id' (tracks p t)) = None"
  then show "setTrackVolume t volume m p = (Returned (), m, p)"
    by (simp add: setTrackVolume_def Let_def)
next
  assume a: "kind (tracks p t) = ''audio'' \<and> Map_get (caches m) (id' (tracks p t)) = Some cache
        \<and> 0 \<le> v \<and> v \<le> 100"
  let ?x = "v / 100"
  let ?d = "nearest 53 (- 1022) ?x"
  let ?g = "nearest 24 (- 126) ?d"
  have x: "0 \<le> ?x" "\<bar>?x\<bar> \<le> 1" using a by simp_all
  have d0: "0 \<le> ?d" using x(1) by (rule nearest_nonneg)
  have "\<bar>?d\<bar> \<le> 2 powi 0" by (rule nearest_abs_le) (use x(2) in simp_all)
  then have d1: "\<bar>?d\<bar> \<le> 1" by simp
  have g0: "0 \<le> ?g" using d0 by (rule nearest_nonneg)
  have "\<bar>?g\<bar> \<le> 2 powi 0" by (rule nearest_abs_le) (use d1 in simp_all)
  then have g1: "?g \<le> 1" by simp
  have p53: "(2::real) powi (- 53) = 1 / 2 ^ 53" and p24: "(2::real) powi (- 24) = 1 / 2 ^ 24"
    by (simp_all add: inverse_eq_divide)
  have e1: "\<bar>?d - ?x\<bar> \<le> 1 / 2 ^ 53"
    unfolding p53 [symmetric] by (rule nearest_error_unit) (use x(2) in simp_all)
  have e2: "\<bar>?g - ?d\<bar> \<le> 1 / 2 ^ 24"
    unfolding p24 [symmetric] by (rule nearest_error_unit) (use d1 in simp_all)
  have "\<bar>?g - ?x\<bar> \<le> \<bar>?g - ?d\<bar> + \<bar>?d - ?x\<bar>" by linarith
  also have "\<dots> \<le> 1 / 2 ^ 24 + 1 / 2 ^ 53" by (intro add_mono e1 e2)
  finally have err: "\<bar>?g - ?x\<bar> \<le> 1 / 2 ^ 24 + 1 / 2 ^ 53" .
  have exact: "?g = ?x" if "nearest 24 (- 126) ?x = ?x"
    unfolding float_is_double [OF that] by (rule that)
  have "\<bar>v\<bar> \<le> 10 ^ 40" using a by simp
  then have run: "setTrackVolume t (Num v) m p
         = (Returned (),
            m\<lparr>audioContext := (audioContext m)
                 \<lparr>gain := (gain (audioContext m))(gainNode cache \<mapsto> ?g)\<rparr>\<rparr>,
            p)"
    using a setTrackVolume_registered [of p t m cache "Num v"]
    by (simp add: to_float_divide_in_range)
  show "let g = nearest 24 (- 126) (nearest 53 (- 1022) (v / 100)) in
       setTrackVolume t (Num v) m p
         = (Returned (),
            m\<lparr>audioContext := (audioContext m)
                 \<lparr>gain := (gain (audioContext m))(gainNode cache \<mapsto> g)\<rparr>\<rparr>,
            p)
       \<and> 0 \<le> g \<and> g \<le> 1 \<and> \<bar>g - v / 100\<bar> \<le> 1 / 2 ^ 24 + 1 / 2 ^ 53
       \<and> (nearest 24 (- 126) (v / 100) = v / 100 \<longrightarrow> g = v / 100)"
    unfolding Let_def using run g0 g1 err exact by (intro conjI impI)
qed

theorem setTrackVolume_contract_witness:
  "kind (tracks example_platform 13) \<noteq> ''audio''
   \<and> setTrackVolume 13 (Num 50) example_mixer_a example_platform
       = (Threw (Error ''not an audio track''), example_mixer_a, example_platform)
   \<and> kind (tracks example_platform 12) = ''audio''
   \<and> Map_get (caches example_mixer_a) (id' (tracks example_platform 12)) = None
   \<and> setTrackVolume 12 (Num 50) example_mixer_a example_platform
       = (Returned (), example_mixer_a, example_platform)
   \<and> kind (tracks example_platform 11) = ''audio''
   \<and> Map_get (caches example_mixer_a) (id' (tracks example_platform 11)) = Some example_cache
   \<and> (0::real) \<le> 50 \<and> (50::real) \<le> 100
   \<and> gain (audioContext (fst (snd (setTrackVolume 11 (Num 50) example_mixer_a example_platform)))) 4
       = Some (1 / 2)
   \<and> (0::real) \<le> 33 \<and> (33::real) \<le> 100
   \<and> gain (audioContext (fst (snd (setTrackVolume 11 (Num 33) example_mixer_a example_platform)))) 4
       = Some (11072963 / 33554432)
   \<and> \<bar>11072963 / 33554432 - 33 / 100 :: real\<bar> \<le> 1 / 2 ^ 24 + 1 / 2 ^ 53"
proof -
  have g: "gainNode example_cache = 4" by (simp add: example_cache_def)
  have 1: "setTrackVolume 13 (Num 50) example_mixer_a example_platform
       = (Threw (Error ''not an audio track''), example_mixer_a, example_platform)"
    using setTrackVolume_contract [of example_platform 13 "Num 50" example_mixer_a]
    by (simp add: example_simps)
  have 2: "setTrackVolume 12 (Num 50) example_mixer_a example_platform
       = (Returned (), example_mixer_a, example_platform)"
    using setTrackVolume_contract [of example_platform 12 "Num 50" example_mixer_a]
    by (simp add: example_simps example_registry(5))
  have 3: "gain (audioContext (fst (snd (setTrackVolume 11 (Num 50) example_mixer_a example_platform)))) 4
       = Some (1 / 2)"
    using setTrackVolume_contract [of example_platform 11 _ example_mixer_a example_cache 50]
    by (simp add: example_simps example_registry(4) g rounded_50 Let_def)
  have 4: "gain (audioContext (fst (snd (setTrackVolume 11 (Num 33) example_mixer_a example_platform)))) 4
       = Some (11072963 / 33554432)
     \<and> \<bar>11072963 / 33554432 - 33 / 100 :: real\<bar> \<le> 1 / 2 ^ 24 + 1 / 2 ^ 53"
    using setTrackVolume_contract [of example_platform 11 _ example_mixer_a example_cache 33]
    by (simp add: example_simps example_registry(4) g rounded_33 Let_def)
  show ?thesis using 1 2 3 4 by (simp add: example_simps example_registry(4,5))
qed

text \<open>
  C4 as stated fails: volume 33 is a double in [0, 100], and the gain value it leaves is
  the float 11072963 / 33554432 (0.33000001311302185), not 33 / 100.
\<close>

theorem setTrackVolume_rounds:
  "kind (tracks example_platform 11) = ''audio''
   \<and> Map_get (caches example_mixer_a) (id' (tracks example_platform 11)) = Some example_cache
   \<and> to_double 33 = Num 33
   \<and> gain (audioContext (fst (snd (setTrackVolume 11 (Num 33) example_mixer_a example_platform))))
        (gainNode example_cache) = Some (11072963 / 33554432)
   \<and> gain (audioContext (fst (snd (setTrackVolume 11 (Num 33) example_mixer_a example_platform))))
        (gainNode example_cache) \<noteq> Some (33 / 100)"
proof -
  have k: "kind (tracks example_platform 11) = ''audio''"
    and r: "Map_get (caches example_mixer_a) (id' (tracks example_platform 11)) = Some example_cache"
    by (simp_all add: example_simps example_registry(4))
  have "to_float (js_divide (Num 33) 100) = Some (11072963 / 33554432)"
    by (simp add: to_float_divide_in_range rounded_33)
  then show ?thesis
    using k r by (simp add: setTrackVolume_registered [OF k r] doubles)
qed




subsection \<open>C5: \<^verbatim>\<open>muteTrack\<close> and \<^verbatim>\<open>unmuteTrack\<close>\<close>

text \<open>
  C5. For an audio-kind track: when the registry holds a registration for the track's
  identifier, \<^verbatim>\<open>muteTrack\<close> sets the enabled flag of the registered track to false and
  returns true, and \<^verbatim>\<open>unmuteTrack\<close> sets it to true and returns true; no other track
  object changes. Otherwise both return false and change nothing. In every case the mixer
  is left as it was: gain values, registry and connections.
\<close>

theorem mute_unmute_contract:
  assumes "kind (tracks p t) = ''audio''"
  shows "(case Map_get (caches m) (id' (tracks p t)) of
            Some cache \<Rightarrow>
              muteTrack t m p = (Returned True, m, set_enabled (track cache) False p)
              \<and> unmuteTrack t m p = (Returned True, m, set_enabled (track cache) True p)
              \<and> enabled (tracks (snd (snd (muteTrack t m p))) (track cache)) = False
              \<and> enabled (tracks (snd (snd (unmuteTrack t m p))) (track cache)) = True
              \<and> (\<forall>r. r \<noteq> track cache \<longrightarrow>
                    tracks (snd (snd (muteTrack t m p))) r = tracks p r
                    \<and> tracks (snd (snd (unmuteTrack t m p))) r = tracks p r)
          | None \<Rightarrow>
              muteTrack t m p = (Returned False, m, p)
              \<and> unmuteTrack t m p = (Returned False, m, p))
    \<and> gain (audioContext (fst (snd (muteTrack t m p)))) = gain (audioContext m)
    \<and> caches (fst (snd (muteTrack t m p))) = caches m
    \<and> edges (audioContext (fst (snd (muteTrack t m p)))) = edges (audioContext m)
    \<and> gain (audioContext (fst (snd (unmuteTrack t m p)))) = gain (audioContext m)
    \<and> caches (fst (snd (unmuteTrack t m p))) = caches m
    \<and> edges (audioContext (fst (snd (unmuteTrack t m p)))) = edges (audioContext m)"
  using assms
  by (simp add: muteTrack_def unmuteTrack_def set_enabled_def Let_def split: option.splits)

theorem mute_unmute_contract_witness:
  "kind (tracks example_platform 14) = ''audio''
   \<and> Map_get (caches example_mixer_a) (id' (tracks example_platform 14)) = Some example_cache
   \<and> track example_cache = 11
   \<and> muteTrack 14 example_mixer_a example_platform
        = (Returned True, example_mixer_a, set_enabled 11 False example_platform)
   \<and> enabled (tracks (snd (snd (muteTrack 14 example_mixer_a example_platform))) 11) = False
   \<and> enabled (tracks (snd (snd (muteTrack 14 example_mixer_a example_platform))) 14) = True
   \<and> unmuteTrack 14 example_mixer_a (set_enabled 11 False example_platform)
        = (Returned True, example_mixer_a, set_enabled 11 True (set_enabled 11 False example_platform))
   \<and> kind (tracks example_platform 12) = ''audio''
   \<and> Map_get (caches example_mixer_a) (id' (tracks example_platform 12)) = None
   \<and> muteTrack 12 example_mixer_a example_platform = (Returned False, example_mixer_a, example_platform)
   \<and> unmuteTrack 12 example_mixer_a example_platform = (Returned False, example_mixer_a, example_platform)"
proof -
  let ?q = "set_enabled 11 False example_platform"
  have k: "kind (tracks example_platform 14) = ''audio''" "kind (tracks example_platform 12) = ''audio''"
    "kind (tracks ?q 14) = ''audio''" "id' (tracks ?q 14) = ''a''"
    by (simp_all add: example_simps set_enabled_def)
  have t: "track example_cache = 11" by (simp add: example_cache_def)
  have e: "enabled (tracks (set_enabled 11 False example_platform) 11) = False"
    "enabled (tracks (set_enabled 11 False example_platform) 14) = True"
    by (simp_all add: set_enabled_def example_platform_def example_tracks_def)
  have 1: "muteTrack 14 example_mixer_a example_platform
        = (Returned True, example_mixer_a, set_enabled 11 False example_platform)"
    using mute_unmute_contract [OF k(1), of example_mixer_a]
    by (simp add: example_simps example_registry(4) t)
  have 2: "unmuteTrack 14 example_mixer_a ?q
        = (Returned True, example_mixer_a, set_enabled 11 True ?q)"
    using mute_unmute_contract [OF k(3), of example_mixer_a]
    by (simp add: k(4) example_registry(4) t)
  have 3: "muteTrack 12 example_mixer_a example_platform = (Returned False, example_mixer_a, example_platform)
    \<and> unmuteTrack 12 example_mixer_a example_platform = (Returned False, example_mixer_a, example_platform)"
    using mute_unmute_contract [OF k(2), of example_mixer_a]
    by (simp add: example_simps example_registry(5))
  show ?thesis
    using 1 2 3 e t by (simp add: example_simps example_registry(4,5))
qed

subsection \<open>C6: \<^verbatim>\<open>removeTrack\<close>\<close>

lemma Map_get_delete: "Map_get (Map_delete xs k) k = None"
  by (simp add: Map_get_def Map_delete_def delete_conv)

text \<open>
  C6. For an audio-kind track whose identifier has no registration, \<^verbatim>\<open>removeTrack\<close>
  does not throw, leaves the mixer (so the registry) as it was and returns the mixer. On
  a reachable mixer that holds a registration for the identifier it removes the
  connection from gain node to destination and the one from source node to gain node,
  deletes the registry entry and returns the mixer. On a reachable mixer a second call
  with the same track returns the same and changes nothing more.
\<close>

theorem removeTrack_contract:
  assumes "kind (tracks p t) = ''audio''"
  shows "(Map_get (caches m) (id' (tracks p t)) = None \<longrightarrow>
            removeTrack t m p = (Returned m, m, p))
    \<and> (reachable m \<and> Map_get (caches m) (id' (tracks p t)) = Some cache \<longrightarrow>
         (let m' = m\<lparr>audioContext := (audioContext m)
                       \<lparr>edges := edges (audioContext m)
                                  - {(gainNode cache, node_id (destinationNode m))}
                                  - {(sourceNode cache, gainNode cache)}\<rparr>,
                     caches := Map_delete (caches m) (id' (tracks p t))\<rparr>
          in removeTrack t m p = (Returned m', m', p)
             \<and> Map_get (caches m') (id' (tracks p t)) = None
             \<and> (gainNode cache, node_id (destinationNode m)) \<notin> edges (audioContext m')
             \<and> (sourceNode cache, gainNode cache) \<notin> edges (audioContext m')))
    \<and> (reachable m \<longrightarrow>
         (case removeTrack t m p of (r, m', p') \<Rightarrow> removeTrack t m' p' = (r, m', p')))"
proof (intro conjI impI)
  assume "Map_get (caches m) (id' (tracks p t)) = None"
  then show "removeTrack t m p = (Returned m, m, p)"
    using assms by (simp add: removeTrack_def Let_def)
next
  assume a: "reachable m \<and> Map_get (caches m) (id' (tracks p t)) = Some cache"
  then have ww: "well_wired m" by (simp add: reachable_well_wired)
  show "let m' = m\<lparr>audioContext := (audioContext m)
                       \<lparr>edges := edges (audioContext m)
                                  - {(gainNode cache, node_id (destinationNode m))}
                                  - {(sourceNode cache, gainNode cache)}\<rparr>,
                     caches := Map_delete (caches m) (id' (tracks p t))\<rparr>
          in removeTrack t m p = (Returned m', m', p)
             \<and> Map_get (caches m') (id' (tracks p t)) = None
             \<and> (gainNode cache, node_id (destinationNode m)) \<notin> edges (audioContext m')
             \<and> (sourceNode cache, gainNode cache) \<notin> edges (audioContext m')"
    using removeTrack_registered [OF ww assms, of cache] a
    by (simp add: Let_def Map_get_delete)
next
  assume r: "reachable m"
  then have ww: "well_wired m" by (rule reachable_well_wired)
  show "case removeTrack t m p of (r, m', p') \<Rightarrow> removeTrack t m' p' = (r, m', p')"
  proof (cases "Map_get (caches m) (id' (tracks p t))")
    case None
    then show ?thesis using assms by (simp add: removeTrack_def Let_def)
  next
    case (Some c)
    let ?m' = "m\<lparr>audioContext := (audioContext m)
                       \<lparr>edges := edges (audioContext m)
                                  - {(gainNode c, node_id (destinationNode m))}
                                  - {(sourceNode c, gainNode c)}\<rparr>,
                     caches := Map_delete (caches m) (id' (tracks p t))\<rparr>"
    have first: "removeTrack t m p = (Returned ?m', ?m', p)"
      using removeTrack_registered [OF ww assms Some] by (simp add: Let_def)
    have second: "removeTrack t ?m' p = (Returned ?m', ?m', p)"
      using assms by (simp add: removeTrack_def Let_def Map_get_delete)
    show ?thesis by (simp add: first second)
  qed
qed

theorem removeTrack_contract_witness:
  "kind (tracks example_platform 12) = ''audio''
   \<and> Map_get (caches example_mixer_a) (id' (tracks example_platform 12)) = None
   \<and> removeTrack 12 example_mixer_a example_platform
        = (Returned example_mixer_a, example_mixer_a, example_platform)
   \<and> kind (tracks example_platform 11) = ''audio''
   \<and> reachable example_mixer_a
   \<and> Map_get (caches example_mixer_a) (id' (tracks example_platform 11)) = Some example_cache
   \<and> caches (fst (snd (removeTrack 11 example_mixer_a example_platform))) = []
   \<and> edges (audioContext (fst (snd (removeTrack 11 example_mixer_a example_platform)))) = {(1, 2)}
   \<and> fst (removeTrack 11 example_mixer_a example_platform)
        = Returned (fst (snd (removeTrack 11 example_mixer_a example_platform)))
   \<and> removeTrack 11 (fst (snd (removeTrack 11 example_mixer_a example_platform))) example_platform
        = removeTrack 11 example_mixer_a example_platform"
proof -
  have k: "kind (tracks example_platform 12) = ''audio''" "kind (tracks example_platform 11) = ''audio''"
    by (simp_all add: example_simps)
  have c: "Map_delete (caches example_mixer_a) ''a'' = []"
    "edges (audioContext example_mixer_a) - {(gainNode example_cache, node_id (destinationNode example_mixer_a))}
       - {(sourceNode example_cache, gainNode example_cache)} = {(1, 2)}"
    by (auto simp: example_mixer_a_def example_cache_def Map_delete_def)
  have 1: "removeTrack 12 example_mixer_a example_platform
        = (Returned example_mixer_a, example_mixer_a, example_platform)"
    using removeTrack_contract [OF k(1), of example_mixer_a]
    by (simp add: example_simps example_registry(5))
  have 2: "caches (fst (snd (removeTrack 11 example_mixer_a example_platform))) = []
   \<and> edges (audioContext (fst (snd (removeTrack 11 example_mixer_a example_platform)))) = {(1, 2)}
   \<and> fst (removeTrack 11 example_mixer_a example_platform)
        = Returned (fst (snd (removeTrack 11 example_mixer_a example_platform)))
   \<and> snd (snd (removeTrack 11 example_mixer_a example_platform)) = example_platform"
    using removeTrack_contract [OF k(2), of example_mixer_a example_cache] reachable_example_mixer_a
    by (simp add: example_simps example_registry(4) Let_def c)
  have 3: "removeTrack 11 (fst (snd (removeTrack 11 example_mixer_a example_platform))) example_platform
        = removeTrack 11 example_mixer_a example_platform"
    using removeTrack_contract [OF k(2), of example_mixer_a example_cache] reachable_example_mixer_a 2
    by (simp add: split_beta prod_eq_iff)
  show ?thesis
    using 1 2 3 reachable_example_mixer_a
    by (simp add: example_simps example_registry(4,5))
qed

subsection \<open>C7: \<^verbatim>\<open>getMixedTrackVolume\<close>\<close>

lemma fold_max_Max:
  fixes f :: "'a \<Rightarrow> int"
  shows "fold (\<lambda>item mx. max mx (f item)) xs a = Max (insert a (f ` set xs))"
proof (induction xs arbitrary: a)
  case Nil
  then show ?case by simp
next
  case (Cons x xs)
  have "Max (insert (max a (f x)) (f ` set xs)) = Max (insert a (insert (f x) (f ` set xs)))"
    by (cases "set xs = {}") (simp_all add: max.assoc)
  then show ?case using Cons.IH [of "max a (f x)"] by simp
qed

lemma deviation_bounds: "0 \<le> \<bar>uint (s :: 8 word) - 128\<bar> \<and> \<bar>uint s - 128\<bar> \<le> 128"
proof -
  have "0 \<le> uint s" "uint s < 256"
    using uint_lt2p [of s] by simp_all
  then show ?thesis by linarith
qed

lemma max_deviation_bounds:
  "0 \<le> Max (insert 0 ((\<lambda>s :: 8 word. \<bar>uint s - 128\<bar>) ` set buf))
   \<and> Max (insert 0 ((\<lambda>s :: 8 word. \<bar>uint s - 128\<bar>) ` set buf)) \<le> 128"
  using deviation_bounds by auto

text \<open>
  C7. With an analyser, \<^verbatim>\<open>getMixedTrackVolume\<close> returns the floor of
  (maximum over the samples of the buffer of |sample - 128|) / 128 * 100, the maximum
  of no samples being 0; the value lies between 0 and 100. Without an analyser it
  returns 0.
\<close>

theorem getMixedTrackVolume_value:
  "(analyser m = None \<longrightarrow> fst (getMixedTrackVolume wave m p) = Returned 0)
   \<and> (analyser m \<noteq> None \<longrightarrow>
        (let buf = getByteTimeDomainData wave (timeDomainData m);
             deviation = Max (insert 0 ((\<lambda>sample. \<bar>uint sample - 128\<bar>) ` set buf))
         in fst (getMixedTrackVolume wave m p) = Returned \<lfloor>real_of_int deviation / 128 * 100\<rfloor>
            \<and> (buf \<noteq> [] \<longrightarrow> deviation = Max ((\<lambda>sample. \<bar>uint sample - 128\<bar>) ` set buf))))
   \<and> (\<exists>v. fst (getMixedTrackVolume wave m p) = Returned v \<and> 0 \<le> v \<and> v \<le> 100)"
proof -
  let ?buf = "getByteTimeDomainData wave (timeDomainData m)"
  let ?dev = "Max (insert 0 ((\<lambda>sample :: 8 word. \<bar>uint sample - 128\<bar>) ` set ?buf))"
  have b: "0 \<le> ?dev" "?dev \<le> 128" using max_deviation_bounds [of ?buf] by simp_all
  have lo: "0 \<le> \<lfloor>real_of_int ?dev / 128 * 100\<rfloor>" using b by simp
  have "real_of_int ?dev / 128 * 100 \<le> 100" using b by simp
  then have hi: "\<lfloor>real_of_int ?dev / 128 * 100\<rfloor> \<le> 100" by linarith
  have nonempty: "?dev = Max ((\<lambda>sample :: 8 word. \<bar>uint sample - 128\<bar>) ` set ?buf)" if "?buf \<noteq> []"
  proof -
    have "set ?buf \<noteq> {}" using that by simp
    then show ?thesis using deviation_bounds
      by (subst Max_insert) (auto simp: max_def Max_ge_iff)
  qed
  have none: "fst (getMixedTrackVolume wave m p) = Returned 0" if "analyser m = None"
    using that by (simp add: getMixedTrackVolume_def)
  have some: "fst (getMixedTrackVolume wave m p) = Returned \<lfloor>real_of_int ?dev / 128 * 100\<rfloor>"
    if "analyser m \<noteq> None"
    using that by (auto simp: getMixedTrackVolume_def Let_def BASE_def fold_max_Max)
  have "\<exists>v. fst (getMixedTrackVolume wave m p) = Returned v \<and> 0 \<le> v \<and> v \<le> 100"
    using none some lo hi by (cases "analyser m") auto
  then show ?thesis using none some nonempty by (simp add: Let_def)
qed

theorem getMixedTrackVolume_value_witness:
  "analyser (example_mixer\<lparr>analyser := None\<rparr>) = None
   \<and> fst (getMixedTrackVolume [128, 191, 100, 128] (example_mixer\<lparr>analyser := None\<rparr>) example_platform)
       = Returned 0
   \<and> analyser example_mixer \<noteq> None
   \<and> getByteTimeDomainData [128, 191, 100, 128, 0] (timeDomainData example_mixer) = [128, 191, 100, 128]
   \<and> fst (getMixedTrackVolume [128, 191, 100, 128, 0] example_mixer example_platform) = Returned 49
   \<and> fst (getMixedTrackVolume [128, 0, 255, 128] example_mixer example_platform) = Returned 100"
proof -
  have a: "analyser example_mixer = Some 2" "timeDomainData example_mixer = [0, 0, 0, 0]"
    by (simp_all add: example_mixer_def)
  have b: "getByteTimeDomainData [128, 191, 100, 128, 0] [0, 0, 0, 0] = [128, 191, 100, 128]"
    "getByteTimeDomainData [128, 0, 255, 128] [0, 0, 0, 0] = [128, 0, 255, 128]"
    by (simp_all add: getByteTimeDomainData_def)
  show ?thesis
    using getMixedTrackVolume_value [of "example_mixer\<lparr>analyser := None\<rparr>" "[128, 191, 100, 128]" example_platform]
      getMixedTrackVolume_value [of example_mixer "[128, 191, 100, 128, 0]" example_platform]
      getMixedTrackVolume_value [of example_mixer "[128, 0, 255, 128]" example_platform]
    by (simp add: a b Let_def)
qed


subsection \<open>C8: \<^verbatim>\<open>destroy\<close>\<close>

lemma registry_nodes_member:
  "(k, c) \<in> set cs \<Longrightarrow>
     sourceNode c \<in> set (registry_nodes cs) \<and> gainNode c \<in> set (registry_nodes cs)"
  by (induction cs) (auto simp: registry_nodes_simps)

text \<open>
  C8. On every reachable mixer \<^verbatim>\<open>destroy\<close> does not throw; afterwards no registration's
  connection from gain node to destination or from source node to gain node is left (the
  graph keeps exactly the analyser's connection), the registry is empty and the context
  is closed. It returns the settlement of the context's \<^verbatim>\<open>close()\<close>, which is one of
  fulfilled and rejected: fulfilled when the context was open, rejected when it was
  already closed.
\<close>

theorem destroy_contract:
  assumes "reachable m"
  shows "case destroy m p of (r, m', p') \<Rightarrow>
      caches m' = []
      \<and> (\<forall>(k, cache) \<in> set (caches m).
            (gainNode cache, node_id (destinationNode m)) \<notin> edges (audioContext m')
            \<and> (sourceNode cache, gainNode cache) \<notin> edges (audioContext m'))
      \<and> edges (audioContext m')
          = edges (audioContext m) - registry_edges (node_id (destinationNode m)) (caches m)
      \<and> edges (audioContext m) - registry_edges (node_id (destinationNode m)) (caches m)
          = {(analyserSourceNode m, the (analyser m))}
      \<and> ctxState (audioContext m') = Closed
      \<and> r = Returned (fst (close (audioContext m) p))
      \<and> fst (close (audioContext m) p)
          = (if ctxState (audioContext m) = Closed then Rejected else Resolved)"
proof -
  have ww: "well_wired m" using assms by (rule reachable_well_wired)
  obtain an where an: "analyser m = Some an"
    using ww by (auto simp: well_wired_def split: option.splits)
  let ?d = "node_id (destinationNode m)"
  have d: "distinct (mixer_nodes m)"
    and e: "edges (audioContext m) = insert (analyserSourceNode m, an) (registry_edges ?d (caches m))"
    using ww an by (simp_all add: well_wired_def)
  have "(analyserSourceNode m, an) \<notin> registry_edges ?d (caches m)"
    using d an registry_edges_fst [of _ _ ?d "caches m"] by (auto simp: mixer_nodes_def)
  then have rest: "edges (audioContext m) - registry_edges ?d (caches m) = {(analyserSourceNode m, an)}"
    using e by auto
  have gone: "(gainNode c, ?d) \<noteq> (analyserSourceNode m, an) \<and> (sourceNode c, gainNode c) \<noteq> (analyserSourceNode m, an)"
    if "(k, c) \<in> set (caches m)" for k c
    using registry_nodes_member [OF that] d an by (auto simp: mixer_nodes_def)
  show ?thesis
    unfolding destroy_well_wired [OF ww]
    using an rest gone by (auto simp: close_def)
qed

theorem destroy_contract_witness:
  "reachable example_mixer_a
   \<and> caches example_mixer_a = [(''a'', example_cache)]
   \<and> edges (audioContext example_mixer_a) = {(4, 0), (3, 4), (1, 2)}
   \<and> fst (destroy example_mixer_a example_platform) = Returned Resolved
   \<and> caches (fst (snd (destroy example_mixer_a example_platform))) = []
   \<and> edges (audioContext (fst (snd (destroy example_mixer_a example_platform)))) = {(1, 2)}
   \<and> reachable (fst (snd (destroy example_mixer_a example_platform)))
   \<and> fst (destroy (fst (snd (destroy example_mixer_a example_platform))) example_platform)
        = Returned Rejected"
proof -
  let ?m1 = "fst (snd (destroy example_mixer_a example_platform))"
  have r1: "reachable ?m1" by (rule reachable_steps(10) [OF reachable_example_mixer_a])
  have a: "analyserSourceNode example_mixer_a = 1" "analyser example_mixer_a = Some 2"
    "ctxState (audioContext example_mixer_a) = Suspended"
    "edges (audioContext example_mixer_a) = {(4, 0), (3, 4), (1, 2)}"
    by (simp_all add: example_mixer_a_def)
  have 1: "fst (destroy example_mixer_a example_platform) = Returned Resolved
      \<and> caches ?m1 = [] \<and> edges (audioContext ?m1) = {(1, 2)} \<and> ctxState (audioContext ?m1) = Closed"
    using destroy_contract [OF reachable_example_mixer_a, of example_platform]
    by (simp add: split_beta a(1-3))
  have 2: "fst (destroy ?m1 example_platform) = Returned Rejected"
    using destroy_contract [OF r1, of example_platform] 1
    by (auto simp: split_beta)
  show ?thesis using 1 2 r1 reachable_example_mixer_a a by (simp add: example_registry(2))
qed

subsection \<open>C9: the capture helpers\<close>







end
